theory Spec2Isabelle
  imports Complex_Main
begin

section \<open>JavaScript numbers\<close>

text \<open>
  The sources are TypeScript; every \<open>number\<close> is an IEEE double: \<open>NaN\<close>, an infinity, or a
  finite number, which is a \<open>real\<close> here. The two zeros are one (a division by zero takes the
  zero as positive).
\<close>

datatype jsnum = NaN | NInf | Fin real | PInf

text \<open>
  Rounding. \<open>fl x\<close> is the double nearest to the real \<open>x\<close>, ties to the even significand:
  53 bits of significand, the subnormal numbers below \<open>2^-1022\<close> on the grid of \<open>2^-1074\<close>,
  and no bound on the exponent above. \<open>flj\<close> adds the overflow: a result that rounds to
  \<open>2^1024\<close> or beyond is an infinity.
\<close>

definition pow2 :: "int \<Rightarrow> real" where
  "pow2 k = (if 0 \<le> k then 2 ^ nat k else 1 / 2 ^ nat (- k))"

definition roundEven :: "real \<Rightarrow> int" where
  "roundEven y =
     (let f = \<lfloor>y\<rfloor>; r = y - of_int f
      in if r < 1 / 2 then f else if 1 / 2 < r then f + 1 else if even f then f else f + 1)"

definition ulp :: "real \<Rightarrow> real" where
  "ulp x = pow2 (max (\<lfloor>log 2 \<bar>x\<bar>\<rfloor> - 52) (- 1074))"

definition fl :: "real \<Rightarrow> real" where
  "fl x = (if x = 0 then 0 else of_int (roundEven (x / ulp x)) * ulp x)"

definition flj :: "real \<Rightarrow> jsnum" where
  "flj x =
     (let y = fl x
      in if pow2 1024 \<le> y then PInf else if y \<le> - pow2 1024 then NInf else Fin y)"

text \<open>
  The arithmetic of \<open>jsnum\<close>, on which the colour utilities run, rounds every result with
  \<open>flj\<close>. The parameters of the component and the positions, velocities and times of the
  simulation are finite, hence \<open>real\<close>; the simulation is computed on them in ideal
  arithmetic, without rounding, except in \<open>moveBubbleDouble\<close> below, which is the
  integration step in doubles.
\<close>

fun js_neg :: "jsnum \<Rightarrow> jsnum" where
  "js_neg NaN = NaN"
| "js_neg NInf = PInf"
| "js_neg PInf = NInf"
| "js_neg (Fin a) = Fin (- a)"

fun js_add :: "jsnum \<Rightarrow> jsnum \<Rightarrow> jsnum" where
  "js_add (Fin a) (Fin b) = flj (a + b)"
| "js_add NaN _ = NaN"
| "js_add _ NaN = NaN"
| "js_add PInf NInf = NaN"
| "js_add NInf PInf = NaN"
| "js_add PInf _ = PInf"
| "js_add _ PInf = PInf"
| "js_add NInf _ = NInf"
| "js_add _ NInf = NInf"

definition js_sub :: "jsnum \<Rightarrow> jsnum \<Rightarrow> jsnum" where
  "js_sub a b = js_add a (js_neg b)"

text \<open>The sign of a number, for the results that are infinite: \<open>None\<close> for \<open>NaN\<close> and zero.\<close>

fun js_sign :: "jsnum \<Rightarrow> bool option" where
  "js_sign NaN = None"
| "js_sign PInf = Some True"
| "js_sign NInf = Some False"
| "js_sign (Fin a) = (if a = 0 then None else Some (0 < a))"

definition js_inf :: "bool \<Rightarrow> jsnum" where
  "js_inf pos = (if pos then PInf else NInf)"

fun js_mul :: "jsnum \<Rightarrow> jsnum \<Rightarrow> jsnum" where
  "js_mul (Fin a) (Fin b) = flj (a * b)"
| "js_mul a b =
     (case (js_sign a, js_sign b) of
        (Some p, Some q) \<Rightarrow> js_inf (p = q)
      | _ \<Rightarrow> NaN)"

fun js_div :: "jsnum \<Rightarrow> jsnum \<Rightarrow> jsnum" where
  "js_div (Fin a) (Fin b) =
     (if b \<noteq> 0 then flj (a / b)
      else if a = 0 then NaN else js_inf (0 < a))"
| "js_div NaN _ = NaN"
| "js_div _ NaN = NaN"
| "js_div (Fin a) _ = Fin 0"
| "js_div PInf (Fin b) = js_inf (0 \<le> b)"
| "js_div NInf (Fin b) = js_inf (b < 0)"
| "js_div _ _ = NaN"

text \<open>\<open><\<close> on numbers: false as soon as one side is \<open>NaN\<close>.\<close>

fun js_lt :: "jsnum \<Rightarrow> jsnum \<Rightarrow> bool" where
  "js_lt (Fin a) (Fin b) = (a < b)"
| "js_lt NaN _ = False"
| "js_lt _ NaN = False"
| "js_lt NInf b = (b \<noteq> NInf)"
| "js_lt a PInf = (a \<noteq> PInf)"
| "js_lt _ _ = False"

definition js_gt :: "jsnum \<Rightarrow> jsnum \<Rightarrow> bool" where
  "js_gt a b = js_lt b a"

text \<open>\<open>===\<close> and \<open>!==\<close> on numbers: \<open>NaN\<close> is not equal to itself.\<close>

definition js_seq :: "jsnum \<Rightarrow> jsnum \<Rightarrow> bool" where
  "js_seq a b = (a \<noteq> NaN \<and> b \<noteq> NaN \<and> a = b)"

definition js_sne :: "jsnum \<Rightarrow> jsnum \<Rightarrow> bool" where
  "js_sne a b = (\<not> js_seq a b)"

text \<open>\<open>Math.max\<close> and \<open>Math.min\<close>: \<open>NaN\<close> as soon as one argument is.\<close>

definition js_max :: "jsnum \<Rightarrow> jsnum \<Rightarrow> jsnum" where
  "js_max a b = (if a = NaN \<or> b = NaN then NaN else if js_lt a b then b else a)"

definition js_min :: "jsnum \<Rightarrow> jsnum \<Rightarrow> jsnum" where
  "js_min a b = (if a = NaN \<or> b = NaN then NaN else if js_lt b a then b else a)"

text \<open>
  \<open>a % b\<close>, the remainder with the sign of the dividend. The remainder of two doubles is a
  double: there is nothing to round.
\<close>

definition trunc :: "real \<Rightarrow> real" where
  "trunc a = (if 0 \<le> a then of_int \<lfloor>a\<rfloor> else of_int \<lceil>a\<rceil>)"

definition rem :: "real \<Rightarrow> real \<Rightarrow> real" where
  "rem a b = a - b * trunc (a / b)"

fun js_rem :: "jsnum \<Rightarrow> jsnum \<Rightarrow> jsnum" where
  "js_rem (Fin a) (Fin b) = (if b = 0 then NaN else Fin (rem a b))"
| "js_rem (Fin a) PInf = Fin a"
| "js_rem (Fin a) NInf = Fin a"
| "js_rem _ _ = NaN"

definition hypot :: "real \<Rightarrow> real \<Rightarrow> real" where
  "hypot a b = sqrt (a * a + b * b)"

section \<open>Strings\<close>

text \<open>
  A string is a list of characters, one per UTF-16 code unit, for code units below 256.
\<close>

definition slice :: "nat \<Rightarrow> nat \<Rightarrow> string \<Rightarrow> string" where
  "slice a b s = take (b - a) (drop a s)"

definition startsWith :: "string \<Rightarrow> string \<Rightarrow> bool" where
  "startsWith s p = (take (length p) s = p)"

definition isWhite :: "char \<Rightarrow> bool" where
  "isWhite c = ((of_char c :: nat) \<in> {9, 10, 11, 12, 13, 32, 160})"

definition isDigit :: "char \<Rightarrow> bool" where
  "isDigit c = (48 \<le> (of_char c :: nat) \<and> (of_char c :: nat) \<le> 57)"

definition hexDigit :: "char \<Rightarrow> nat option" where
  "hexDigit c =
     (let n = (of_char c :: nat) in
      if 48 \<le> n \<and> n \<le> 57 then Some (n - 48)
      else if 97 \<le> n \<and> n \<le> 102 then Some (n - 87)
      else if 65 \<le> n \<and> n \<le> 70 then Some (n - 55)
      else None)"

definition hexValue :: "string \<Rightarrow> nat" where
  "hexValue ds = foldl (\<lambda>acc c. 16 * acc + the (hexDigit c)) 0 ds"

text \<open>
  \<open>parseInt(s, 16)\<close>: leading white space is skipped, then a sign, then \<open>0x\<close> or \<open>0X\<close>;
  the value is that of the longest run of hexadecimal digits that follows, rounded to a
  double, and \<open>NaN\<close> when that run is empty.
\<close>

definition parseInt16 :: "string \<Rightarrow> jsnum" where
  "parseInt16 s =
     (let s1 = dropWhile isWhite s;
          neg = (s1 \<noteq> [] \<and> hd s1 = CHR ''-'');
          s2 = (if s1 \<noteq> [] \<and> (hd s1 = CHR ''-'' \<or> hd s1 = CHR ''+'') then tl s1 else s1);
          s3 = (if take 2 s2 = ''0x'' \<or> take 2 s2 = ''0X'' then drop 2 s2 else s2);
          z = takeWhile (\<lambda>c. hexDigit c \<noteq> None) s3
      in if z = [] then NaN
         else flj (if neg then - real (hexValue z) else real (hexValue z)))"

definition decValue :: "string \<Rightarrow> nat" where
  "decValue ds = foldl (\<lambda>acc c. 10 * acc + ((of_char c :: nat) - 48)) 0 ds"

text \<open>
  \<open>Number(s)\<close> for a non-empty \<open>s\<close> of decimal digits and dots, which is all that
  \<open>rgbToHslTuple\<close> passes to it: digits, optionally a dot and more digits, with a digit on
  one side of the dot at least; anything else is \<open>NaN\<close>. The value of the literal is rounded
  to a double, and is \<open>Infinity\<close> when it is too large for one.
\<close>

definition toNumber :: "string \<Rightarrow> jsnum" where
  "toNumber s =
     (let ip = takeWhile isDigit s; rest = dropWhile isDigit s
      in if rest = [] then flj (real (decValue ip))
         else let fp = tl rest
              in if \<not> list_all isDigit fp then NaN
                 else if ip = [] \<and> fp = [] then NaN
                 else flj (real (decValue ip) + real (decValue fp) / 10 ^ length fp))"

definition isNumChar :: "char \<Rightarrow> bool" where
  "isNumChar c = (isDigit c \<or> c = CHR ''.'')"

text \<open>\<open>s.match(/([\d\.]+)/g)\<close>: the maximal runs of digits and dots, left to right.\<close>

function numRuns :: "string \<Rightarrow> string list" where
  "numRuns [] = []"
| "numRuns (c # cs) =
     (if isNumChar c then (c # takeWhile isNumChar cs) # numRuns (dropWhile isNumChar cs)
      else numRuns cs)"
  by pat_completeness auto
termination
  by (relation "measure length") (auto simp: le_imp_less_Suc length_dropWhile_le)

section \<open>Colour utilities\<close>

text \<open>
  \<open>tint\<close> builds its result with a template literal, which converts the three channels with
  the engine's number-to-string conversion. That conversion is a parameter here,
  \<open>numToString\<close>.
\<close>

definition clamp :: "jsnum \<Rightarrow> jsnum" where
  "clamp v = js_max (Fin 0) (js_min (Fin 255) v)"

definition tint :: "(jsnum \<Rightarrow> string) \<Rightarrow> string \<Rightarrow> real \<Rightarrow> string" where
  "tint numToString color factor =
     (if color = [] then color
      else let hex = remove1 CHR ''#'' color
           in if length hex \<noteq> 6 then color
              else let r = parseInt16 (slice 0 2 hex);
                       g = parseInt16 (slice 2 4 hex);
                       b = parseInt16 (slice 4 6 hex)
                   in ''rgb('' @ numToString (clamp (js_mul r (Fin factor))) @ '', ''
                        @ numToString (clamp (js_mul g (Fin factor))) @ '', ''
                        @ numToString (clamp (js_mul b (Fin factor))) @ '')'')"

text \<open>
  \<open>[r, g, b] = nums\<close> followed by \<open>r /= 255\<close>: a missing element is \<open>undefined\<close>, and
  \<open>undefined / 255\<close> is \<open>NaN\<close>.
\<close>

definition nthOrNaN :: "jsnum list \<Rightarrow> nat \<Rightarrow> jsnum" where
  "nthOrNaN xs i = (if i < length xs then xs ! i else NaN)"

definition hslOfRgb :: "jsnum \<Rightarrow> jsnum \<Rightarrow> jsnum \<Rightarrow> jsnum \<times> jsnum \<times> jsnum" where
  "hslOfRgb r0 g0 b0 =
     (let r = js_div r0 (Fin 255);
          g = js_div g0 (Fin 255);
          b = js_div b0 (Fin 255);
          mx = js_max (js_max r g) b;
          mn = js_min (js_min r g) b;
          l = js_div (js_add mx mn) (Fin 2);
          (h, s) =
            (if js_sne mx mn then
               let d = js_sub mx mn;
                   s = (if js_gt l (Fin 0.5) then js_div d (js_sub (js_sub (Fin 2) mx) mn)
                        else js_div d (js_add mx mn));
                   h = (if js_seq mx r then
                          js_add (js_div (js_sub g b) d) (Fin (if js_lt g b then 6 else 0))
                        else if js_seq mx g then js_add (js_div (js_sub b r) d) (Fin 2)
                        else if js_seq mx b then js_add (js_div (js_sub r g) d) (Fin 4)
                        else Fin 0)
               in (js_div h (Fin 6), s)
             else (Fin 0, Fin 0))
      in (js_mul h (Fin 360), js_mul s (Fin 100), js_mul l (Fin 100)))"

definition rgbToHslTuple :: "string \<Rightarrow> (jsnum \<times> jsnum \<times> jsnum) option" where
  "rgbToHslTuple color =
     (if startsWith color ''#'' \<and> length color = 7 then
        Some (hslOfRgb (parseInt16 (slice 1 3 color)) (parseInt16 (slice 3 5 color))
                (parseInt16 (slice 5 7 color)))
      else if startsWith color ''rgb'' then
        (let nums = map toNumber (numRuns color)
         in Some (hslOfRgb (nthOrNaN nums 0) (nthOrNaN nums 1) (nthOrNaN nums 2)))
      else None)"

text \<open>\<open>hslToRgbString\<close>; \<open>toFixed1\<close> stands for \<open>Number.prototype.toFixed(1)\<close>.\<close>

definition hslToRgbString :: "(jsnum \<Rightarrow> string) \<Rightarrow> jsnum \<Rightarrow> jsnum \<Rightarrow> jsnum \<Rightarrow> string" where
  "hslToRgbString toFixed1 h s l =
     ''hsl('' @ toFixed1 h @ '', '' @ toFixed1 s @ ''%, '' @ toFixed1 l @ ''%)''"


section \<open>The blurred bubbles background\<close>

subsection \<open>Parameters, bubbles and the state of the effect\<close>

text \<open>
  The properties of the component. \<open>count\<close> is a number of bubbles, hence a natural
  number; the other numbers are finite.
\<close>

record props =
  count :: nat
  colors :: "string list"
  minRadius :: real
  maxRadius :: real
  speed :: real
  noiseScale :: real
  noiseTimeScale :: real
  targetFps :: real
  debugFps :: bool
  startDelayMs :: real
  colorShiftSeconds :: real
  radiusPulseSeconds :: real
  radiusPulseScale :: real
  radiusMin :: real
  radiusMax :: real
  colorShiftDegrees :: real

text \<open>
  What the component takes from outside the sources at hand. \<open>makeNoise2D\<close> and \<open>rand\<close>
  come from \<open>./utils\<close>: \<open>noise\<close> is the generator that \<open>makeNoise2D()\<close> returned, and
  \<open>rand k lo hi\<close> is what the \<open>k\<close>-th call of \<open>rand\<close> returns on \<open>(lo, hi)\<close>; nothing is
  assumed of either. \<open>numToString\<close> and \<open>toFixed1\<close> are the engine's conversions of a
  number to a string.
\<close>

record env =
  noise :: "real \<Rightarrow> real \<Rightarrow> real"
  rand :: "nat \<Rightarrow> real \<Rightarrow> real \<Rightarrow> real"
  numToString :: "jsnum \<Rightarrow> string"
  toFixed1 :: "jsnum \<Rightarrow> string"

text \<open>A bubble; \<open>xpos\<close>, \<open>ypos\<close> and \<open>rad\<close> are the fields \<open>x\<close>, \<open>y\<close> and \<open>r\<close>.\<close>

record bubble =
  xpos :: real
  ypos :: real
  rad :: real
  rBase :: real
  rAmp :: real
  rPeriodFactor :: real
  sBase :: jsnum
  lBase :: jsnum
  hBase :: jsnum
  hJitterDeg :: real
  hueAmpDeg :: real
  huePeriodFactor :: real
  color :: string
  vx :: real
  vy :: real
  jitter :: real
  blur :: real
  angle :: real
  aspect :: real
  noisePhase :: real
  homeX :: real
  homeY :: real

text \<open>One ellipse painted by \<open>draw\<close>.\<close>

record ellipse =
  centerX :: real
  centerY :: real
  rotation :: real
  blurPx :: real
  alpha :: real
  fillStyle :: string
  radiusX :: real
  radiusY :: real

text \<open>
  The variables of the effect's closure and the canvas. \<open>painted\<close> is what has been
  painted since the canvas was last cleared; \<open>rafRequests\<close> counts the calls of
  \<open>requestAnimationFrame\<close>, whose handle goes to \<open>animRef\<close>.
\<close>

record sim =
  width :: real
  height :: real
  dpr :: real
  canvasWidth :: int
  canvasHeight :: int
  ctxScale :: real
  painted :: "ellipse list"
  gridCols :: int
  gridRows :: int
  grid :: "real list"
  bubbles :: "bubble list"
  lastTime :: real
  accumulatedTime :: real
  fpsCounter :: nat
  fpsStart :: real
  consoleLog :: "(nat \<times> real) list"
  animRef :: nat
  rafRequests :: nat

subsection \<open>Occupancy grid\<close>

definition gridCell :: real where
  "gridCell = 100"

definition allocateGrid :: "sim \<Rightarrow> sim" where
  "allocateGrid s =
     (let cols = max 1 \<lceil>width s / gridCell\<rceil>;
          rows = max 1 \<lceil>height s / gridCell\<rceil>
      in s\<lparr>gridCols := cols, gridRows := rows, grid := replicate (nat (cols * rows)) 0\<rparr>)"

text \<open>
  The body of the two loops of \<open>stampOccupancy\<close>. The grid is a \<open>Float32Array\<close>: a write
  outside of it is ignored, as \<open>list_update\<close> does.
\<close>

definition stampCell :: "int \<Rightarrow> int \<Rightarrow> sim \<Rightarrow> sim" where
  "stampCell cy cx s =
     (if cx < 0 \<or> cy < 0 \<or> cx \<ge> gridCols s \<or> cy \<ge> gridRows s then s
      else let idx = nat (cy * gridCols s + cx)
           in s\<lparr>grid := (grid s)[idx := grid s ! idx + 0.35]\<rparr>)"

definition stampOccupancy :: "real \<Rightarrow> real \<Rightarrow> real \<Rightarrow> sim \<Rightarrow> sim" where
  "stampOccupancy x y r s =
     (let c0 = \<lfloor>(x - r) / gridCell\<rfloor>;
          c1 = \<lfloor>(x + r) / gridCell\<rfloor>;
          r0 = \<lfloor>(y - r) / gridCell\<rfloor>;
          r1 = \<lfloor>(y + r) / gridCell\<rfloor>
      in fold (\<lambda>cy. fold (stampCell cy) [c0..c1]) [r0..r1] s)"

text \<open>\<open>now\<close> is what \<open>performance.now()\<close> returns.\<close>

definition lowestOccupancyTarget :: "sim \<Rightarrow> real \<Rightarrow> real \<times> real" where
  "lowestOccupancyTarget s now =
     (let wobbleX = sin (now * 0.00025) * 0.12;
          wobbleY = cos (now * 0.00018) * 0.04
      in (width s * (0.5 + wobbleX), height s * (0.5 + wobbleY)))"

subsection \<open>Placement\<close>

datatype js_error = TypeError

definition minDist :: "props \<Rightarrow> real" where
  "minDist P = max (minRadius P * 0.7) 120"

definition maxTries :: nat where
  "maxTries = 5000"

text \<open>The inner loop of the placement: \<open>ok\<close> stays true when no placed bubble is too close.\<close>

definition accepts :: "props \<Rightarrow> bubble list \<Rightarrow> real \<Rightarrow> real \<Rightarrow> real \<Rightarrow> bool" where
  "accepts P bs x y r =
     list_all (\<lambda>b. \<not> (hypot (xpos b - x) (ypos b - y) < (rad b + r) * 0.6 \<or>
                       hypot (xpos b - x) (ypos b - y) < minDist P)) bs"

text \<open>
  The bubble pushed for an accepted candidate; its thirteen calls of \<open>rand\<close> are the calls
  \<open>k\<close> to \<open>k + 12\<close>, in the order of the source.
\<close>

definition newBubble :: "props \<Rightarrow> env \<Rightarrow> nat \<Rightarrow> nat \<Rightarrow> real \<Rightarrow> real \<Rightarrow> real \<Rightarrow> bubble" where
  "newBubble P E k n x y r =
     (let baseColor = colors P ! (n mod length (colors P));
          tinted = tint (numToString E) baseColor (rand E k 0.72 1.18);
          hsl = rgbToHslTuple tinted;
          hueAmp = rand E (k + 1) (colorShiftDegrees P * 0.55) (colorShiftDegrees P * 1.25);
          huePeriod = rand E (k + 2) 0.75 1.35;
          hJitter = rand E (k + 3) (- 35) 35;
          amp = r * rand E (k + 4) (radiusPulseScale P * 0.4) (radiusPulseScale P * 1.1);
          rPeriod = rand E (k + 5) 0.75 1.3
      in \<lparr>xpos = x, ypos = y, rad = r, rBase = r, rAmp = amp, rPeriodFactor = rPeriod,
          sBase = (case hsl of Some (h, s, l) \<Rightarrow> s | None \<Rightarrow> Fin 70),
          lBase = (case hsl of Some (h, s, l) \<Rightarrow> l | None \<Rightarrow> Fin 60),
          hBase = (case hsl of Some (h, s, l) \<Rightarrow> h | None \<Rightarrow> Fin 200),
          hJitterDeg = hJitter, hueAmpDeg = hueAmp, huePeriodFactor = huePeriod,
          color = tinted,
          vx = rand E (k + 6) (- 0.2) 0.2,
          vy = rand E (k + 7) (- 0.2) 0.2,
          jitter = rand E (k + 8) 0.7 1.3,
          blur = rand E (k + 9) 60 120,
          angle = rand E (k + 10) 0 (pi * 2),
          aspect = rand E (k + 11) 0.68 1.25,
          noisePhase = rand E (k + 12) 0 10000,
          homeX = x, homeY = y\<rparr>)"

text \<open>
  The placement loop, on the bubbles placed so far, the number of tries and the number of
  calls of \<open>rand\<close> made. With an empty palette \<open>baseColor\<close> is \<open>undefined\<close>, \<open>tint\<close> returns
  it as it is, and \<open>rgbToHslTuple\<close> throws on \<open>undefined.startsWith\<close>.
\<close>

function placeLoop ::
  "props \<Rightarrow> env \<Rightarrow> real \<Rightarrow> real \<Rightarrow> bubble list \<Rightarrow> nat \<Rightarrow> nat \<Rightarrow> js_error + bubble list" where
  "placeLoop P E W H bs tries k =
     (if length bs < count P \<and> tries < maxTries then
        let r = rand E k (minRadius P) (maxRadius P);
            x = rand E (k + 1) (r * 0.6) (W - r * 0.6);
            y = rand E (k + 2) (r * 0.6) (H - r * 0.6)
        in if accepts P bs x y r then
             (if colors P = [] then Inl TypeError
              else placeLoop P E W H (bs @ [newBubble P E (k + 3) (length bs) x y r])
                     (Suc tries) (k + 16))
           else placeLoop P E W H bs (Suc tries) (k + 3)
      else Inr bs)"
  by pat_completeness auto
termination
  by (relation "measure (\<lambda>(P, E, W, H, bs, tries, k). maxTries - tries)") auto

definition placement :: "props \<Rightarrow> env \<Rightarrow> real \<Rightarrow> real \<Rightarrow> js_error + bubble list" where
  "placement P E W H = placeLoop P E W H [] 0 0"

subsection \<open>Physics\<close>

definition flowForce :: "props \<Rightarrow> env \<Rightarrow> real \<Rightarrow> bubble \<Rightarrow> real \<times> real" where
  "flowForce P E t b =
     (let n = noise E (xpos b * noiseScale P + noisePhase b)
                (ypos b * noiseScale P + t * noiseTimeScale P + noisePhase b);
          ang = n * pi * 2
      in (cos ang * speed P * jitter b, sin ang * speed P * jitter b))"

text \<open>What one other bubble \<open>ob\<close> adds to \<open>(sx, sy)\<close>.\<close>

definition pushFrom :: "bubble \<Rightarrow> bubble \<Rightarrow> real \<times> real" where
  "pushFrom b ob =
     (let dx = xpos b - xpos ob;
          dy = ypos b - ypos ob;
          d2 = dx * dx + dy * dy;
          minD = (rad b + rad ob) * 0.65
      in if d2 < minD * minD \<and> d2 > 0.001 then
           let d = sqrt d2; push = (minD - d) / minD
           in (dx / d * push * 1.8, dy / d * push * 1.8)
         else (0, 0))"

definition separation :: "bubble list \<Rightarrow> nat \<Rightarrow> real \<times> real" where
  "separation bs i =
     fold (\<lambda>j (sx, sy).
             if j \<noteq> i then (sx + fst (pushFrom (bs ! i) (bs ! j)),
                             sy + snd (pushFrom (bs ! i) (bs ! j)))
             else (sx, sy))
       [0..<length bs] (0, 0)"

definition coverage :: "real \<times> real \<Rightarrow> bubble \<Rightarrow> real \<times> real" where
  "coverage target b =
     (let dxT = fst target - xpos b;
          dyT = snd target - ypos b;
          dT = hypot dxT dyT + 0.001
      in (dxT / dT * 0.015, dyT / dT * 0.015))"

definition tether :: "bubble \<Rightarrow> real \<times> real" where
  "tether b = ((homeX b - xpos b) * 0.012, (homeY b - ypos b) * 0.012)"

text \<open>The balancing force, computed once per frame from the bubbles as they are then.\<close>

definition balance :: "real \<Rightarrow> real \<Rightarrow> bubble list \<Rightarrow> real \<times> real" where
  "balance W H bs =
     (let avgX = sum_list (map xpos bs) / max 1 (real (length bs));
          avgY = sum_list (map ypos bs) / max 1 (real (length bs))
      in ((W * 0.5 - avgX) / max W 1 * 0.25, (H * 0.5 - avgY) / max H 1 * 0.15))"

text \<open>
  The sum of the five forces on bubble \<open>i\<close>, as the body of the loop computes it from the
  array \<open>bs\<close> it reads.
\<close>

definition forces ::
  "props \<Rightarrow> env \<Rightarrow> real \<Rightarrow> real \<times> real \<Rightarrow> real \<times> real \<Rightarrow> bubble list \<Rightarrow> nat \<Rightarrow> real \<times> real" where
  "forces P E t target bal bs i =
     (let b = bs ! i;
          f = flowForce P E t b;
          s = separation bs i;
          c = coverage target b;
          h = tether b
      in (fst f + fst s + fst c + fst bal + fst h, snd f + snd s + snd c + snd bal + snd h))"

text \<open>
  From the combined force to the bounce at the edges: damping, the limit on the speed,
  integration, and the four tests of the edges, one after the other; here in ideal
  arithmetic, where no operation rounds.
\<close>

definition maxVel :: real where
  "maxVel = 4"

definition moveBubble :: "real \<Rightarrow> real \<Rightarrow> real \<times> real \<Rightarrow> bubble \<Rightarrow> bubble" where
  "moveBubble W H f b =
     (let vx1 = (vx b + fst f) * 0.93;
          vy1 = (vy b + snd f) * 0.93;
          vel = hypot vx1 vy1;
          vx2 = (if vel > maxVel then vx1 / vel * maxVel else vx1);
          vy2 = (if vel > maxVel then vy1 / vel * maxVel else vy1);
          x1 = xpos b + vx2;
          y1 = ypos b + vy2;
          padX = rad b * 0.6;
          padY = rad b * 0.6;
          (x2, vx3) = (if x1 < padX then (padX, \<bar>vx2\<bar> * 0.85) else (x1, vx2));
          (x3, vx4) = (if x2 > W - padX then (W - padX, - \<bar>vx3\<bar> * 0.85) else (x2, vx3));
          (y2, vy3) = (if y1 < padY then (padY, \<bar>vy2\<bar> * 0.85) else (y1, vy2));
          (y3, vy4) = (if y2 > H - padY then (H - padY, - \<bar>vy3\<bar> * 0.85) else (y2, vy3))
      in b\<lparr>xpos := x3, ypos := y3, vx := vx4, vy := vy4\<rparr>)"

text \<open>
  The same lines in doubles: every operation rounds its result with \<open>fl\<close>. The literals
  \<open>0.93\<close>, \<open>0.6\<close> and \<open>0.85\<close> are the doubles nearest to them, \<open>4\<close> is a double, and
  \<open>Math.abs\<close> and the unary minus are exact. \<open>Math.hypot\<close> is implementation-approximated
  in ECMAScript, so it is a parameter, \<open>mathHypot\<close>. The force \<open>f\<close> is the pair of doubles
  that \<open>fx + sx + cx + balanceX + hx\<close> and \<open>fy + sy + cy + balanceY + hy\<close> have evaluated to.
  \<open>fl\<close> has no overflow: this is the computation of the source as long as the numbers stay
  in the range of the doubles.
\<close>

definition moveBubbleDouble ::
  "(real \<Rightarrow> real \<Rightarrow> real) \<Rightarrow> real \<Rightarrow> real \<Rightarrow> real \<times> real \<Rightarrow> bubble \<Rightarrow> bubble" where
  "moveBubbleDouble mathHypot W H f b =
     (let vx1 = fl (fl (vx b + fst f) * fl 0.93);
          vy1 = fl (fl (vy b + snd f) * fl 0.93);
          vel = mathHypot vx1 vy1;
          vx2 = (if vel > maxVel then fl (fl (vx1 / vel) * maxVel) else vx1);
          vy2 = (if vel > maxVel then fl (fl (vy1 / vel) * maxVel) else vy1);
          x1 = fl (xpos b + vx2);
          y1 = fl (ypos b + vy2);
          padX = fl (rad b * fl 0.6);
          padY = fl (rad b * fl 0.6);
          (x2, vx3) = (if x1 < padX then (padX, fl (\<bar>vx2\<bar> * fl 0.85)) else (x1, vx2));
          (x3, vx4) = (if x2 > fl (W - padX) then (fl (W - padX), fl (- \<bar>vx3\<bar> * fl 0.85))
                       else (x2, vx3));
          (y2, vy3) = (if y1 < padY then (padY, fl (\<bar>vy2\<bar> * fl 0.85)) else (y1, vy2));
          (y3, vy4) = (if y2 > fl (H - padY) then (fl (H - padY), fl (- \<bar>vy3\<bar> * fl 0.85))
                       else (y2, vy3))
      in b\<lparr>xpos := x3, ypos := y3, vx := vx4, vy := vy4\<rparr>)"

text \<open>One turn of the loop of \<open>updatePhysics\<close>: bubble \<open>i\<close> is updated in the array.\<close>

definition stepBubble ::
  "props \<Rightarrow> env \<Rightarrow> real \<Rightarrow> real \<times> real \<Rightarrow> real \<times> real \<Rightarrow> nat \<Rightarrow> sim \<Rightarrow> sim" where
  "stepBubble P E t target bal i s =
     (let b = moveBubble (width s) (height s) (forces P E t target bal (bubbles s) i)
                (bubbles s ! i)
      in stampOccupancy (xpos b) (ypos b) (rad b * 0.6) (s\<lparr>bubbles := (bubbles s)[i := b]\<rparr>))"

definition updatePhysics :: "props \<Rightarrow> env \<Rightarrow> real \<Rightarrow> real \<Rightarrow> sim \<Rightarrow> sim" where
  "updatePhysics P E t now s =
     (let target = lowestOccupancyTarget s now;
          bal = balance (width s) (height s) (bubbles s)
      in fold (stepBubble P E t target bal) [0..<length (bubbles s)] s)"

subsection \<open>Drawing\<close>

definition rNow :: "props \<Rightarrow> real \<Rightarrow> bubble \<Rightarrow> real" where
  "rNow P t b =
     (let rPeriodMs = radiusPulseSeconds P * 1000 * rPeriodFactor b;
          rPhase = (if rPeriodMs > 0 then rem ((t + noisePhase b * 1000) / rPeriodMs) 1 else 0);
          rPulse = sin (rPhase * pi * 2)
      in min (radiusMax P) (max (radiusMin P) (rBase b + rAmp b * rPulse)))"

definition hueNow :: "props \<Rightarrow> real \<Rightarrow> bubble \<Rightarrow> jsnum" where
  "hueNow P t b =
     (let huePeriodMs = colorShiftSeconds P * 1000 * huePeriodFactor b;
          huePhase = (if huePeriodMs > 0 then rem ((t + noisePhase b * 1000) / huePeriodMs) 1 else 0);
          hueShift = sin (huePhase * pi * 2) * hueAmpDeg b
      in js_rem (js_add (js_add (js_add (hBase b) (Fin (hJitterDeg b))) (Fin hueShift)) (Fin 360))
           (Fin 360))"

definition drawBubble :: "props \<Rightarrow> env \<Rightarrow> real \<Rightarrow> bubble \<Rightarrow> ellipse" where
  "drawBubble P E t b =
     \<lparr>centerX = xpos b, centerY = ypos b, rotation = angle b, blurPx = blur b, alpha = 0.55,
      fillStyle = hslToRgbString (toFixed1 E) (hueNow P t b) (sBase b) (lBase b),
      radiusX = rNow P t b * aspect b, radiusY = rNow P t b\<rparr>"

text \<open>\<open>now i\<close> is what \<open>performance.now()\<close> returns while bubble \<open>i\<close> is drawn.\<close>

definition draw :: "props \<Rightarrow> env \<Rightarrow> (nat \<Rightarrow> real) \<Rightarrow> sim \<Rightarrow> sim" where
  "draw P E now s =
     s\<lparr>painted := painted s @
          map (\<lambda>i. drawBubble P E (now i) (bubbles s ! i)) [0..<length (bubbles s)]\<rparr>"

subsection \<open>Frames and resizing\<close>

definition effectiveFps :: "props \<Rightarrow> real" where
  "effectiveFps P = max 1 (targetFps P)"

definition FRAME_INTERVAL :: "props \<Rightarrow> real" where
  "FRAME_INTERVAL P = 1000 / effectiveFps P"

definition requestAnimationFrame :: "sim \<Rightarrow> sim" where
  "requestAnimationFrame s = s\<lparr>animRef := Suc (rafRequests s), rafRequests := Suc (rafRequests s)\<rparr>"

definition measureFps :: "props \<Rightarrow> real \<Rightarrow> sim \<Rightarrow> sim" where
  "measureFps P t s =
     (if debugFps P then
        let s1 = (if fpsStart s = 0 then s\<lparr>fpsStart := t\<rparr> else s);
            s2 = s1\<lparr>fpsCounter := Suc (fpsCounter s1)\<rparr>
        in if t - fpsStart s2 \<ge> 1000
           then s2\<lparr>consoleLog := consoleLog s2 @ [(fpsCounter s2, effectiveFps P)],
                   fpsCounter := 0, fpsStart := t\<rparr>
           else s2
      else s)"

text \<open>
  One tick of the scheduler. \<open>hidden\<close> is \<open>document.hidden\<close>, \<open>t\<close> the time stamp of the
  tick, \<open>nowP\<close> and \<open>nowD\<close> the readings of \<open>performance.now()\<close> in \<open>updatePhysics\<close> and
  in \<open>draw\<close>.
\<close>

definition frame ::
  "props \<Rightarrow> env \<Rightarrow> bool \<Rightarrow> real \<Rightarrow> real \<Rightarrow> (nat \<Rightarrow> real) \<Rightarrow> sim \<Rightarrow> sim" where
  "frame P E hidden t nowP nowD s =
     (if hidden then requestAnimationFrame s
      else let deltaTime = (if lastTime s \<noteq> 0 then t - lastTime s else 0);
               s1 = s\<lparr>lastTime := t, accumulatedTime := accumulatedTime s + deltaTime\<rparr>
           in if accumulatedTime s1 < FRAME_INTERVAL P then requestAnimationFrame s1
              else let s2 = s1\<lparr>accumulatedTime := 0\<rparr>;
                       s3 = s2\<lparr>painted := []\<rparr>;
                       s4 = updatePhysics P E t nowP s3;
                       s5 = draw P E nowD s4;
                       s6 = measureFps P t s5
                   in requestAnimationFrame s6)"

text \<open>
  \<open>handleResize\<close>, on the client size of the canvas that it reads. Assigning the width or
  the height of a canvas clears it.
\<close>

definition handleResize :: "props \<Rightarrow> env \<Rightarrow> real \<Rightarrow> real \<Rightarrow> (nat \<Rightarrow> real) \<Rightarrow> sim \<Rightarrow> sim" where
  "handleResize P E nextWidth nextHeight nowD s =
     (if nextWidth = width s \<and> nextHeight = height s then s
      else let s1 = s\<lparr>width := nextWidth, height := nextHeight,
                       canvasWidth := \<lfloor>nextWidth * dpr s\<rfloor>,
                       canvasHeight := \<lfloor>nextHeight * dpr s\<rfloor>,
                       ctxScale := dpr s, painted := []\<rparr>
           in draw P E nowD (allocateGrid s1))"

subsection \<open>The state after set-up\<close>

text \<open>
  The closure once the effect has sized the canvas, allocated the grid and placed the
  bubbles \<open>bs\<close>, before the first frame is requested; \<open>ratio\<close> is
  \<open>window.devicePixelRatio\<close>.
\<close>

definition initialSim :: "real \<Rightarrow> real \<Rightarrow> real \<Rightarrow> bubble list \<Rightarrow> sim" where
  "initialSim W H ratio bs =
     (let DPR = min 2 (if ratio = 0 then 1 else ratio)
      in allocateGrid
           \<lparr>width = W, height = H, dpr = DPR, canvasWidth = \<lfloor>W * DPR\<rfloor>,
            canvasHeight = \<lfloor>H * DPR\<rfloor>, ctxScale = DPR, painted = [], gridCols = 0,
            gridRows = 0, grid = [], bubbles = bs, lastTime = 0, accumulatedTime = 0,
            fpsCounter = 0, fpsStart = 0, consoleLog = [], animRef = 0, rafRequests = 0\<rparr>)"

section \<open>The likes endpoint\<close>

text \<open>
  The two tables, with their primary keys: a count per slug, and the set of the like events
  \<open>(slug, ip, day)\<close>. Keys are compared as they are written; the count is a natural
  number. A statement that the server refuses, whatever the reason, is a call that fails,
  and a call that fails leaves the stored state and the open transaction as they were.
\<close>

record db =
  likes :: "string \<rightharpoonup> nat"
  events :: "(string \<times> string \<times> nat) set"

text \<open>
  The calls that the handler awaits, in the order of the source; \<open>SelectCountLimited\<close> is
  the read of the count on the rate-limited path, \<open>SelectCount\<close> the one inside the
  transaction. Each of them can throw, \<open>Release\<close> apart, which the handler does not await.
\<close>

datatype call =
  EnsureTable | GetConnection | SelectLimited | SelectCountLimited | Begin | InsertEvent
  | UpsertLikes | SelectCount | Commit | Rollback | Release

record request =
  slugParam :: "string option"
  forwardedFor :: "string option"
  realIp :: "string option"

datatype body = ErrorBody string | CountBody nat | RateLimitedBody nat

record response =
  status :: nat
  content :: body

definition MAX_SLUG_LENGTH :: nat where
  "MAX_SLUG_LENGTH = 191"

definition RATE_LIMIT_STATUS :: nat where
  "RATE_LIMIT_STATUS = 429"

definition respond :: "nat \<Rightarrow> body \<Rightarrow> response" where
  "respond st b = \<lparr>status = st, content = b\<rparr>"

definition trim :: "string \<Rightarrow> string" where
  "trim s = rev (dropWhile isWhite (rev (dropWhile isWhite s)))"

definition parseSlug :: "request \<Rightarrow> string + string" where
  "parseSlug req =
     (case map_option trim (slugParam req) of
        None \<Rightarrow> Inl ''Missing slug''
      | Some slug \<Rightarrow>
          if slug = [] then Inl ''Missing slug''
          else if length slug > MAX_SLUG_LENGTH then Inl ''Slug too long''
          else Inr slug)"

definition getClientIp :: "request \<Rightarrow> string" where
  "getClientIp req =
     (let forwarded = map_option (\<lambda>h. trim (takeWhile (\<lambda>c. c \<noteq> CHR '','') h)) (forwardedFor req);
          real = map_option trim (realIp req)
      in if forwarded \<noteq> None \<and> forwarded \<noteq> Some [] then the forwarded
         else if real \<noteq> None \<and> real \<noteq> Some [] then the real
         else ''unknown'')"

definition countOf :: "db \<Rightarrow> string \<Rightarrow> nat" where
  "countOf d slug = (case likes d slug of Some c \<Rightarrow> c | None \<Rightarrow> 0)"

definition insertEvent :: "string \<Rightarrow> string \<Rightarrow> nat \<Rightarrow> db \<Rightarrow> db" where
  "insertEvent slug ip today d = d\<lparr>events := insert (slug, ip, today) (events d)\<rparr>"

definition upsertLikes :: "string \<Rightarrow> db \<Rightarrow> db" where
  "upsertLikes slug d =
     d\<lparr>likes := (likes d)(slug \<mapsto> (case likes d slug of Some c \<Rightarrow> c + 1 | None \<Rightarrow> 1))\<rparr>"

text \<open>
  What a run of the handler leaves: the response, the stored (committed) state, the
  transaction still open on the connection when it is released, and the calls made.
\<close>

record outcome =
  reply :: response
  stored :: db
  openTxn :: "db option"
  calls :: "call list"

text \<open>
  The body of the inner \<open>try\<close>, on the fault oracle \<open>ok\<close> (the calls that succeed), the
  current day and the stored state. It gives the response returned, or \<open>None\<close> when a call
  threw, the value of \<open>committed\<close>, the stored state, the open transaction and the calls.
\<close>

definition likeTransaction ::
  "(call \<Rightarrow> bool) \<Rightarrow> nat \<Rightarrow> string \<Rightarrow> string \<Rightarrow> db \<Rightarrow>
   response option \<times> bool \<times> db \<times> db option \<times> call list" where
  "likeTransaction ok today slug ip d =
     (if \<not> ok SelectLimited then (None, False, d, None, [SelectLimited])
      else if (slug, ip, today) \<in> events d then
        (if \<not> ok SelectCountLimited
         then (None, False, d, None, [SelectLimited, SelectCountLimited])
         else (Some (respond RATE_LIMIT_STATUS (RateLimitedBody (countOf d slug))), False, d,
               None, [SelectLimited, SelectCountLimited]))
      else if \<not> ok Begin then (None, False, d, None, [SelectLimited, Begin])
      else if \<not> ok InsertEvent
        then (None, False, d, Some d, [SelectLimited, Begin, InsertEvent])
      else let w1 = insertEvent slug ip today d in
        if \<not> ok UpsertLikes
        then (None, False, d, Some w1, [SelectLimited, Begin, InsertEvent, UpsertLikes])
        else let w2 = upsertLikes slug w1 in
          if \<not> ok SelectCount
          then (None, False, d, Some w2,
                [SelectLimited, Begin, InsertEvent, UpsertLikes, SelectCount])
          else if \<not> ok Commit
          then (None, False, d, Some w2,
                [SelectLimited, Begin, InsertEvent, UpsertLikes, SelectCount, Commit])
          else (Some (respond 200 (CountBody (countOf w2 slug))), True, w2, None,
                [SelectLimited, Begin, InsertEvent, UpsertLikes, SelectCount, Commit]))"

text \<open>
  The handler: the \<open>finally\<close> block rolls back when \<open>committed\<close> is false, ignoring a
  failure of the rollback, and releases the connection; the outer \<open>catch\<close> answers 500.
\<close>

definition POST :: "(call \<Rightarrow> bool) \<Rightarrow> nat \<Rightarrow> request \<Rightarrow> db \<Rightarrow> outcome" where
  "POST ok today req d =
     (case parseSlug req of
        Inl err \<Rightarrow> \<lparr>reply = respond 400 (ErrorBody err), stored = d, openTxn = None, calls = []\<rparr>
      | Inr slug \<Rightarrow>
          let ip = getClientIp req;
              failed = respond 500 (ErrorBody ''Failed to save like'')
          in if \<not> ok EnsureTable
             then \<lparr>reply = failed, stored = d, openTxn = None, calls = [EnsureTable]\<rparr>
             else if \<not> ok GetConnection
             then \<lparr>reply = failed, stored = d, openTxn = None,
                   calls = [EnsureTable, GetConnection]\<rparr>
             else
               let (res, committed, d', txn, cs) = likeTransaction ok today slug ip d;
                   txn' = (if committed then txn else if ok Rollback then None else txn);
                   cs' = (if committed then cs else cs @ [Rollback])
               in \<lparr>reply = (case res of Some r \<Rightarrow> r | None \<Rightarrow> failed), stored = d',
                   openTxn = txn',
                   calls = [EnsureTable, GetConnection] @ cs' @ [Release]\<rparr>)"

section \<open>Notions used to state the properties\<close>

subsection \<open>Colour utilities\<close>

definition isHex :: "char \<Rightarrow> bool" where
  "isHex c = (hexDigit c \<noteq> None)"

text \<open>A channel of a hexadecimal colour, times the factor, clamped.\<close>

definition channel :: "string \<Rightarrow> real \<Rightarrow> jsnum" where
  "channel two k = clamp (flj (real (hexValue two) * k))"

definition rgbText :: "(jsnum \<Rightarrow> string) \<Rightarrow> jsnum \<Rightarrow> jsnum \<Rightarrow> jsnum \<Rightarrow> string" where
  "rgbText conv a b c = ''rgb('' @ conv a @ '', '' @ conv b @ '', '' @ conv c @ '')''"

text \<open>
  An instance of the number-to-string conversion for the closed examples: it is the
  engine's conversion on \<open>NaN\<close>, on the infinities and on the integers of magnitude below
  \<open>10^21\<close>, and the examples apply it to nothing else.
\<close>

function decString :: "nat \<Rightarrow> string" where
  "decString n =
     (if n < 10 then [''0123456789'' ! n]
      else decString (n div 10) @ [''0123456789'' ! (n mod 10)])"
  by pat_completeness auto
termination
  by (relation "measure id") auto

definition showNum :: "jsnum \<Rightarrow> string" where
  "showNum v =
     (case v of
        NaN \<Rightarrow> ''NaN''
      | PInf \<Rightarrow> ''Infinity''
      | NInf \<Rightarrow> ''-Infinity''
      | Fin a \<Rightarrow>
          if a = of_int \<lfloor>a\<rfloor>
          then (if a < 0 then ''-'' @ decString (nat (- \<lfloor>a\<rfloor>)) else decString (nat \<lfloor>a\<rfloor>))
          else [])"

subsection \<open>Placement and physics\<close>

definition centreDistance :: "bubble \<Rightarrow> bubble \<Rightarrow> real" where
  "centreDistance b c = hypot (xpos b - xpos c) (ypos b - ypos c)"

text \<open>Every two distinct bubbles of the pool are as far apart as the placement asks.\<close>

definition spaced :: "props \<Rightarrow> bubble list \<Rightarrow> bool" where
  "spaced P bs =
     (\<forall>i < length bs. \<forall>j < length bs. i \<noteq> j \<longrightarrow>
        centreDistance (bs ! i) (bs ! j)
          \<ge> max ((rad (bs ! i) + rad (bs ! j)) * 0.6) (max (minRadius P * 0.7) 120))"

text \<open>
  What one turn of the loop of \<open>updatePhysics\<close> does to the array of bubbles, and the
  array after the first \<open>k\<close> turns.
\<close>

definition stepBubbles ::
  "props \<Rightarrow> env \<Rightarrow> real \<Rightarrow> real \<Rightarrow> real \<Rightarrow> real \<times> real \<Rightarrow> real \<times> real \<Rightarrow> nat \<Rightarrow>
   bubble list \<Rightarrow> bubble list" where
  "stepBubbles P E t W H target bal i bs =
     bs[i := moveBubble W H (forces P E t target bal bs i) (bs ! i)]"

definition partialUpdate ::
  "props \<Rightarrow> env \<Rightarrow> real \<Rightarrow> real \<Rightarrow> real \<Rightarrow> real \<times> real \<Rightarrow> real \<times> real \<Rightarrow> nat \<Rightarrow>
   bubble list \<Rightarrow> bubble list" where
  "partialUpdate P E t W H target bal k bs = fold (stepBubbles P E t W H target bal) [0..<k] bs"

text \<open>
  The bubbles after a frame as the specification words it: the forces on every bubble are
  computed from the positions and velocities that all bubbles had before the frame.
\<close>

definition snapshotBubbles :: "props \<Rightarrow> env \<Rightarrow> real \<Rightarrow> real \<Rightarrow> sim \<Rightarrow> bubble list" where
  "snapshotBubbles P E t now s =
     (let target = lowestOccupancyTarget s now;
          bal = balance (width s) (height s) (bubbles s)
      in map (\<lambda>i. moveBubble (width s) (height s) (forces P E t target bal (bubbles s) i)
                    (bubbles s ! i))
           [0..<length (bubbles s)])"

text \<open>
  What is asked of \<open>Math.hypot\<close>: a relative error of \<open>2^-48\<close> at most, which is eight
  units in the last place, and \<open>2^-1074\<close> at the bottom of the range. \<open>roundedHypot\<close> is the
  correctly rounded one. \<open>inRange\<close> is the size up to which the numbers of the integration
  step can grow without an operation of the step overflowing.
\<close>

definition hypotAccurate :: "(real \<Rightarrow> real \<Rightarrow> real) \<Rightarrow> bool" where
  "hypotAccurate mathHypot =
     (\<forall>a b. \<bar>mathHypot a b - hypot a b\<bar> \<le> hypot a b * pow2 (- 48) + pow2 (- 1074))"

definition roundedHypot :: "real \<Rightarrow> real \<Rightarrow> real" where
  "roundedHypot a b = fl (hypot a b)"

definition inRange :: "real \<Rightarrow> bool" where
  "inRange x = (\<bar>x\<bar> \<le> pow2 1000)"

subsection \<open>Instances for the closed examples\<close>

text \<open>The default values of the properties, with a palette of two colours.\<close>

definition defaultProps :: props where
  "defaultProps =
     \<lparr>count = 8, colors = [''#646464'', ''#c80000''], minRadius = 120, maxRadius = 460,
      speed = 0.55, noiseScale = 0.0007, noiseTimeScale = 0.001, targetFps = 16,
      debugFps = False, startDelayMs = 800, colorShiftSeconds = 15, radiusPulseSeconds = 18,
      radiusPulseScale = 0.18, radiusMin = 120, radiusMax = 460, colorShiftDegrees = 30\<rparr>"

text \<open>
  An instance of \<open>toFixed(1)\<close>, right on \<open>NaN\<close> and on the numbers with one decimal at most.
\<close>

definition showFixed1 :: "jsnum \<Rightarrow> string" where
  "showFixed1 v =
     (case v of
        Fin a \<Rightarrow>
          (if a < 0 then ''-'' else []) @ decString (nat \<lfloor>\<bar>a\<bar>\<rfloor>) @ ''.'' @
          decString (nat (\<lfloor>\<bar>a\<bar> * 10\<rfloor> mod 10))
      | _ \<Rightarrow> showNum v)"

text \<open>
  An environment for the examples: a flat noise field, and a \<open>rand\<close> that returns the
  lower bound, but the middle of the range at its call 17.
\<close>

definition exampleEnv :: env where
  "exampleEnv =
     \<lparr>noise = (\<lambda>x y. 0),
      rand = (\<lambda>k lo hi. if k = 17 then lo + (hi - lo) / 2 else lo),
      numToString = showNum, toFixed1 = showFixed1\<rparr>"

text \<open>
  A bubble of radius 200 at height 540, at rest, and a state of the closure on a canvas of
  1000 by 1000: two such bubbles that overlap. \<open>cruisingBubble\<close> is a bubble of radius 100
  in the middle of that canvas that moves with the velocity \<open>(1.25, 3.5)\<close>, below the limit
  on the speed.
\<close>

definition exampleBubble :: "real \<Rightarrow> bubble" where
  "exampleBubble x =
     \<lparr>xpos = x, ypos = 540, rad = 200, rBase = 200, rAmp = 36, rPeriodFactor = 1,
      sBase = Fin 0, lBase = Fin 50.2, hBase = Fin 0, hJitterDeg = 0, hueAmpDeg = 30,
      huePeriodFactor = 1, color = ''rgb(128, 128, 128)'', vx = 0, vy = 0, jitter = 1,
      blur = 60, angle = 0, aspect = 1, noisePhase = 0, homeX = x, homeY = 540.5\<rparr>"

definition exampleSim :: sim where
  "exampleSim = initialSim 1000 1000 1 [exampleBubble 400, exampleBubble 600]"

definition cruisingBubble :: bubble where
  "cruisingBubble =
     (exampleBubble 500)\<lparr>ypos := 500, rad := 100, vx := 1.25, vy := 3.5, homeY := 500\<rparr>"

definition twoProps :: props where
  "twoProps = defaultProps\<lparr>count := 2\<rparr>"

text \<open>A request for the slug \<open>post\<close> from the address \<open>10.0.0.1\<close>, and two stored states.\<close>

definition exampleRequest :: request where
  "exampleRequest =
     \<lparr>slugParam = Some '' post '', forwardedFor = Some ''10.0.0.1, 10.0.0.2'', realIp = None\<rparr>"

definition likedDb :: db where
  "likedDb = \<lparr>likes = [''post'' \<mapsto> 7], events = {(''post'', ''10.0.0.1'', 3)}\<rparr>"

definition freshDb :: db where
  "freshDb = \<lparr>likes = [''post'' \<mapsto> 7], events = {(''post'', ''10.0.0.9'', 3)}\<rparr>"


section \<open>Properties of rounding\<close>

lemma pow2_powr: "pow2 k = 2 powr (of_int k)"
  by (auto simp: pow2_def powr_realpow[symmetric] powr_minus divide_simps)

lemma pow2_pos: "0 < pow2 k"
  by (simp add: pow2_powr)

lemma pow2_add: "pow2 (a + b) = pow2 a * pow2 b"
  by (simp add: pow2_powr powr_add)

lemma pow2_mono: "a \<le> b \<Longrightarrow> pow2 a \<le> pow2 b"
  by (simp add: pow2_powr)

lemma roundEven_near: "\<bar>of_int (roundEven y) - y\<bar> \<le> 1 / 2"
  unfolding roundEven_def Let_def by (auto simp: abs_le_iff)

lemma roundEven_eq:
  assumes "\<bar>y - of_int m\<bar> < 1 / 2"
  shows "roundEven y = m"
proof -
  have "\<bar>of_int (roundEven y) - y\<bar> \<le> 1 / 2" by (rule roundEven_near)
  then have "\<bar>(of_int (roundEven y) :: real) - of_int m\<bar> < 1" using assms by linarith
  then have "\<bar>roundEven y - m\<bar> < 1"
    by (metis of_int_diff of_int_abs of_int_less_1_iff)
  then show ?thesis by linarith
qed

lemma roundEven_int: "roundEven (of_int m) = m"
  by (rule roundEven_eq) simp

lemma floor_log2:
  assumes "pow2 e \<le> \<bar>x\<bar>" "\<bar>x\<bar> < pow2 (e + 1)"
  shows "\<lfloor>log 2 \<bar>x\<bar>\<rfloor> = e"
proof -
  have pos: "0 < \<bar>x\<bar>" using assms(1) pow2_pos[of e] by linarith
  have "of_int e \<le> log 2 \<bar>x\<bar>"
    using assms(1) pos by (simp add: pow2_powr le_log_iff)
  moreover have "log 2 \<bar>x\<bar> < of_int e + 1"
    using assms(2) pos by (simp add: pow2_powr log_less_iff add.commute)
  ultimately show ?thesis by linarith
qed

lemma log2_bounds:
  assumes "x \<noteq> 0"
  shows "pow2 \<lfloor>log 2 \<bar>x\<bar>\<rfloor> \<le> \<bar>x\<bar>"
proof -
  have pos: "0 < \<bar>x\<bar>" using assms by simp
  have "of_int \<lfloor>log 2 \<bar>x\<bar>\<rfloor> \<le> log 2 \<bar>x\<bar>" by simp
  then show ?thesis using pos by (simp add: pow2_powr le_log_iff del: of_int_floor_le)
qed

text \<open>
  The error of one rounding: half a unit in the last place, which is at most \<open>2^-53\<close> of the
  number in the normal range and \<open>2^-1075\<close> below it.
\<close>

lemma fl_error: "\<bar>fl x - x\<bar> \<le> \<bar>x\<bar> * pow2 (- 53) + pow2 (- 1075)"
proof (cases "x = 0")
  case True then show ?thesis using pow2_pos[of "- 1075"] by (simp add: fl_def)
next
  case False
  define e where "e = \<lfloor>log 2 \<bar>x\<bar>\<rfloor>"
  define k where "k = max (e - 52) (- 1074)"
  have u: "ulp x = pow2 k" by (simp add: ulp_def e_def k_def)
  have up: "0 < pow2 k" by (rule pow2_pos)
  have "fl x - x = (of_int (roundEven (x / pow2 k)) - x / pow2 k) * pow2 k"
    using False up by (simp add: fl_def u field_simps)
  then have "\<bar>fl x - x\<bar> = \<bar>of_int (roundEven (x / pow2 k)) - x / pow2 k\<bar> * pow2 k"
    using up by (simp add: abs_mult)
  also have "\<dots> \<le> 1 / 2 * pow2 k"
    using roundEven_near[of "x / pow2 k"] up by (intro mult_right_mono) simp_all
  also have "\<dots> = pow2 (k - 1)"
    using pow2_add[of "k - 1" 1] by (simp add: pow2_def[of 1])
  also have "\<dots> \<le> \<bar>x\<bar> * pow2 (- 53) + pow2 (- 1075)"
  proof (cases "e - 52 \<ge> - 1074")
    case True
    then have "k - 1 = e + (- 53)" by (simp add: k_def)
    then have "pow2 (k - 1) = pow2 (e + (- 53))" by (simp only:)
    also have "\<dots> = pow2 e * pow2 (- 53)" by (rule pow2_add)
    also have "\<dots> \<le> \<bar>x\<bar> * pow2 (- 53)"
      using log2_bounds[OF \<open>x \<noteq> 0\<close>] pow2_pos[of "- 53"] by (simp add: e_def)
    finally show ?thesis using pow2_pos[of "- 1075"] by linarith
  next
    case False
    then have "k - 1 = - 1075" by (simp add: k_def)
    then have "pow2 (k - 1) = pow2 (- 1075)" by (simp only:)
    moreover have "0 \<le> \<bar>x\<bar> * pow2 (- 53)" using pow2_pos[of "- 53"] by simp
    ultimately show ?thesis by linarith
  qed
  finally show ?thesis .
qed

text \<open>
  The value of a rounding, from the binade of the number and the integer nearest to its
  quotient by the unit in the last place.
\<close>

lemma fl_eqI:
  assumes "pow2 e \<le> \<bar>x\<bar>" "\<bar>x\<bar> < pow2 (e + 1)" "- 1022 \<le> e"
    and "\<bar>x / pow2 (e - 52) - of_int m\<bar> < 1 / 2"
  shows "fl x = of_int m * pow2 (e - 52)"
proof -
  have nz: "x \<noteq> 0" using assms(1) pow2_pos[of e] by auto
  have "max (e - 52) (- 1074) = e - 52" using assms(3) by linarith
  then have "ulp x = pow2 (e - 52)"
    using floor_log2[OF assms(1,2)] by (simp add: ulp_def)
  then show ?thesis using nz roundEven_eq[OF assms(4)] by (simp add: fl_def)
qed

lemma pow2_int_multiple:
  assumes "K \<le> k"
  shows "pow2 k = of_int (2 ^ nat (k - K)) * pow2 K"
proof -
  have "pow2 k = pow2 ((k - K) + K)" by simp
  also have "\<dots> = pow2 (k - K) * pow2 K" by (rule pow2_add)
  also have "pow2 (k - K) = of_int (2 ^ nat (k - K))" using assms by (simp add: pow2_def)
  finally show ?thesis .
qed

text \<open>A number of the grid is its own rounding.\<close>

lemma fl_exact:
  assumes "x = of_int m * pow2 k" "\<bar>m\<bar> < 2 ^ 53" "- 1074 \<le> k"
  shows "fl x = x"
proof (cases "x = 0")
  case True then show ?thesis by (simp add: fl_def)
next
  case False
  define e where "e = \<lfloor>log 2 \<bar>x\<bar>\<rfloor>"
  define K where "K = max (e - 52) (- 1074)"
  have m: "\<bar>of_int m :: real\<bar> < 2 ^ 53"
    using assms(2) by (metis of_int_abs of_int_less_numeral_power_cancel_iff)
  have "\<bar>x\<bar> = \<bar>of_int m\<bar> * pow2 k" using pow2_pos[of k] by (simp add: assms(1) abs_mult)
  also have "\<dots> < 2 ^ 53 * pow2 k" using m pow2_pos[of k] by (intro mult_strict_right_mono)
  also have "\<dots> = pow2 (53 + k)" by (simp add: pow2_add pow2_def[of 53])
  finally have "\<bar>x\<bar> < 2 powr (of_int (53 + k))" by (simp add: pow2_powr)
  then have "log 2 \<bar>x\<bar> < of_int (53 + k)" using False by (simp add: log_less_iff)
  then have "e < 53 + k" unfolding e_def by linarith
  then have Kk: "K \<le> k" using assms(3) by (simp add: K_def)
  have u: "ulp x = pow2 K" by (simp add: ulp_def e_def K_def)
  have "x / pow2 K = of_int (m * 2 ^ nat (k - K))"
    using pow2_pos[of K] by (simp add: assms(1) pow2_int_multiple[OF Kk])
  then have "roundEven (x / pow2 K) = m * 2 ^ nat (k - K)" by (simp only: roundEven_int)
  then have "fl x = of_int (m * 2 ^ nat (k - K)) * pow2 K" using False by (simp add: fl_def u)
  also have "\<dots> = x" by (simp add: assms(1) pow2_int_multiple[OF Kk])
  finally show ?thesis .
qed

lemma fl_int: "\<bar>m\<bar> < 2 ^ 53 \<Longrightarrow> fl (of_int m) = of_int m"
  using fl_exact[of "of_int m" m 0] by (simp add: pow2_def)

lemma fl_0: "fl 0 = 0"
  by (simp add: fl_def)

lemma fl_numeral: "(numeral n :: int) < 2 ^ 53 \<Longrightarrow> fl (numeral n) = numeral n"
  using fl_int[of "numeral n"] by simp

lemma fl_val:
  assumes "pow2 e \<le> \<bar>x\<bar>" "\<bar>x\<bar> < pow2 (e + 1)" "- 1022 \<le> e"
    and "\<bar>x / pow2 (e - 52) - of_int m\<bar> < 1 / 2" "y = of_int m * pow2 (e - 52)"
  shows "fl x = y"
  using fl_eqI[OF assms(1-4)] assms(5) by simp

text \<open>The doubles of the literals \<open>0.93\<close>, \<open>0.6\<close> and \<open>0.85\<close>.\<close>

lemma double_093: "fl 0.93 = 8376695306909123 / 9007199254740992"
  by (rule fl_val[of "- 1" _ 8376695306909123]) (simp_all add: pow2_def)

lemma double_06: "fl 0.6 = 5404319552844595 / 9007199254740992"
  by (rule fl_val[of "- 1" _ 5404319552844595]) (simp_all add: pow2_def)

lemma double_085: "fl 0.85 = 7656119366529843 / 9007199254740992"
  by (rule fl_val[of "- 1" _ 7656119366529843]) (simp_all add: pow2_def)

lemma pow2_tiny:
  "pow2 (- 1075) \<le> 1 / 2 ^ 60" "pow2 (- 1074) \<le> 1 / 2 ^ 60"
  "0 < pow2 (- 1075)" "0 < pow2 (- 1074)"
  using pow2_mono[of "- 1075" "- 60"] pow2_mono[of "- 1074" "- 60"] pow2_pos
  by (simp_all add: pow2_def[of "- 60"])

lemma pow2_small: "pow2 (- 53) = 1 / 2 ^ 53" "pow2 (- 48) = 1 / 2 ^ 48" "pow2 (- 40) = 1 / 2 ^ 40"
  by (simp_all add: pow2_def)

lemma abs_near: "\<bar>x - y\<bar> \<le> d \<Longrightarrow> \<bar>x\<bar> \<le> \<bar>y\<bar> + (d :: real)"
  by linarith

lemma flj_Fin: "\<bar>fl x\<bar> < pow2 1024 \<Longrightarrow> flj x = Fin (fl x)"
  by (simp add: flj_def Let_def abs_less_iff)

lemma flj_int:
  assumes "\<bar>m\<bar> < 2 ^ 53"
  shows "flj (of_int m) = Fin (of_int m)"
proof -
  have "\<bar>of_int m :: real\<bar> < 2 ^ 53"
    using assms by (metis of_int_abs of_int_less_numeral_power_cancel_iff)
  also have "(2 :: real) ^ 53 = pow2 53" by (simp add: pow2_def)
  also have "\<dots> \<le> pow2 1024" by (rule pow2_mono) simp
  finally show ?thesis using fl_int[OF assms] flj_Fin[of "of_int m"] by simp
qed

lemma flj_nat: "n < 2 ^ 53 \<Longrightarrow> flj (real n) = Fin (real n)"
  using flj_int[of "int n"] by simp

lemma flj_numeral: "(numeral n :: int) < 2 ^ 53 \<Longrightarrow> flj (numeral n) = Fin (numeral n)"
  using flj_int[of "numeral n"] by simp

lemma flj_0: "flj 0 = Fin 0"
  using flj_int[of 0] by simp

lemma flj_1: "flj 1 = Fin 1"
  using flj_int[of 1] by simp

lemma flj_half: "flj (1 / 2) = Fin (1 / 2)"
proof -
  have "fl (1 / 2) = 1 / 2" using fl_exact[of "1 / 2" 1 "- 1"] by (simp add: pow2_def)
  moreover have "(1 / 2 :: real) < pow2 1024"
    using pow2_mono[of 0 1024] by (simp add: pow2_def[of 0])
  ultimately show ?thesis using flj_Fin[of "1 / 2"] by simp
qed

lemmas flj_small = flj_numeral flj_0 flj_1 flj_half

text \<open>The value of a rounding in \<open>jsnum\<close>, and the overflow.\<close>

lemma flj_val:
  assumes "pow2 e \<le> \<bar>x\<bar>" "\<bar>x\<bar> < pow2 (e + 1)" "- 1022 \<le> e" "e \<le> 1022"
    and "\<bar>x / pow2 (e - 52) - of_int m\<bar> < 1 / 2" "y = of_int m * pow2 (e - 52)"
  shows "flj x = Fin y"
proof -
  define u where "u = pow2 (e - 52)"
  have u: "0 < u" unfolding u_def by (rule pow2_pos)
  have f: "fl x = y" using assms(1,2,3,5,6) by (rule fl_val)
  have pe: "pow2 (e + 1) = 2 ^ 53 * u" "pow2 (e + 2) = 2 ^ 54 * u"
    using pow2_add[of 53 "e - 52"] pow2_add[of 54 "e - 52"]
    by (simp_all add: u_def pow2_def[of 53] pow2_def[of 54] add.commute)
  define p where "p = \<bar>x / u\<bar>"
  define d where "d = \<bar>x / u - of_int m\<bar>"
  have "\<bar>x\<bar> / u < 2 ^ 53" using assms(2) u unfolding pe by (simp add: field_simps)
  then have p: "p < 9007199254740992" using u by (simp add: p_def)
  have d: "d < 1 / 2" using assms(5) by (simp add: d_def u_def)
  have "\<bar>of_int m :: real\<bar> \<le> p + d" unfolding p_def d_def by linarith
  then have "\<bar>of_int m :: real\<bar> < 18014398509481984" using p d by linarith
  then have "\<bar>of_int m :: real\<bar> < 2 ^ 54" by simp
  then have "\<bar>of_int m :: real\<bar> * u < 2 ^ 54 * u" using u by (intro mult_strict_right_mono)
  then have "\<bar>y\<bar> < pow2 (e + 2)" using u by (simp add: assms(6) u_def[symmetric] abs_mult pe)
  also have "\<dots> \<le> pow2 1024" using assms(4) by (intro pow2_mono) simp
  finally show ?thesis using flj_Fin[of x] f by simp
qed

lemma flj_overflow:
  assumes "pow2 1025 \<le> x"
  shows "flj x = PInf"
proof -
  have x: "4 \<le> x" using assms pow2_mono[of 2 1025] by (simp add: pow2_def[of 2])
  have "- (fl x - x) \<le> \<bar>x\<bar> * pow2 (- 53) + pow2 (- 1075)"
    using fl_error[of x] by (rule abs_le_D2)
  then have "x - fl x \<le> x / 2 ^ 53 + 1 / 2 ^ 60"
    using x pow2_tiny(1) by (simp add: pow2_small)
  then have "x \<le> 2 * fl x" using x by simp
  moreover have "pow2 1025 = 2 * pow2 1024"
    using pow2_add[of 1 1024] by (simp add: pow2_def[of 1])
  ultimately have "pow2 1024 \<le> fl x" using assms by linarith
  then show ?thesis by (simp add: flj_def Let_def)
qed

section \<open>Properties of the colour utilities\<close>

lemma js_max_Fin: "js_max (Fin a) (Fin b) = Fin (max a b)"
  by (simp add: js_max_def max_def)

lemma js_min_Fin: "js_min (Fin a) (Fin b) = Fin (min a b)"
  by (auto simp add: js_min_def min_def)

lemma js_seq_Fin: "js_seq (Fin a) (Fin b) = (a = b)"
  by (simp add: js_seq_def)

lemma js_sne_Fin: "js_sne (Fin a) (Fin b) = (a \<noteq> b)"
  by (simp add: js_sne_def js_seq_def)

lemma js_gt_Fin: "js_gt (Fin a) (Fin b) = (b < a)"
  by (simp add: js_gt_def)

lemmas js_Fin = js_max_Fin js_min_Fin js_seq_Fin js_sne_Fin js_gt_Fin

lemma clamp_Fin: "clamp (Fin v) = Fin (max 0 (min 255 v))"
  by (auto simp: clamp_def js_max_def js_min_def max_def min_def)

lemma clamp_range: "clamp v = Fin w \<Longrightarrow> 0 \<le> w \<and> w \<le> 255"
  by (cases v) (auto simp: clamp_def js_max_def js_min_def split: if_splits)

subsection \<open>Parsing hexadecimal digits\<close>

lemma isHex_not_white: "isHex c \<Longrightarrow> \<not> isWhite c"
  by (auto simp: isHex_def isWhite_def hexDigit_def Let_def split: if_splits)

lemma isHex_not_sign:
  "isHex c \<Longrightarrow> c \<noteq> CHR ''-'' \<and> c \<noteq> CHR ''+'' \<and> c \<noteq> CHR ''x'' \<and> c \<noteq> CHR ''X'' \<and> c \<noteq> CHR ''#''"
  by (auto simp: isHex_def hexDigit_def Let_def split: if_splits)

lemma parseInt16_hex:
  assumes "list_all isHex z" "z \<noteq> []"
  shows "parseInt16 z = flj (real (hexValue z))"
proof -
  obtain c cs where z: "z = c # cs" using assms(2) by (cases z) auto
  have c: "isHex c" and cs: "list_all isHex cs" using assms(1) z by auto
  have w: "dropWhile isWhite z = z" using c z by (simp add: isHex_not_white)
  have p: "take 2 z \<noteq> ''0x'' \<and> take 2 z \<noteq> ''0X''"
  proof (cases cs)
    case Nil then show ?thesis using z by simp
  next
    case (Cons d ds)
    then have "isHex d" using cs by simp
    then show ?thesis using z Cons isHex_not_sign[of d] by auto
  qed
  have t: "takeWhile (\<lambda>c. hexDigit c \<noteq> None) z = z"
    using assms(1) by (simp add: list_all_iff isHex_def)
  have h: "hd z = c" using z by simp
  have s2: "(if z \<noteq> [] \<and> (hd z = CHR ''-'' \<or> hd z = CHR ''+'') then tl z else z) = z"
    using h isHex_not_sign[OF c] by simp
  have s3: "(if take 2 z = ''0x'' \<or> take 2 z = ''0X'' then drop 2 z else z) = z"
    using p by simp
  have ng: "\<not> (z \<noteq> [] \<and> hd z = CHR ''-'')"
    using h isHex_not_sign[OF c] by simp
  show ?thesis
    unfolding parseInt16_def Let_def w s2 s3 t
    using ng assms(2) by simp
qed

lemma hexDigit_le: "hexDigit c = Some n \<Longrightarrow> n \<le> 15"
  by (auto simp: hexDigit_def Let_def split: if_splits)

lemma hexValue_two:
  assumes "length z = 2" "list_all isHex z"
  shows "hexValue z \<le> 255"
proof -
  obtain c d where z: "z = [c, d]"
    using assms(1) by (cases z; cases "tl z") auto
  obtain m n where "hexDigit c = Some m" "hexDigit d = Some n"
    using assms(2) z by (auto simp: isHex_def)
  then show ?thesis
    using hexDigit_le[of c m] hexDigit_le[of d n] z by (simp add: hexValue_def)
qed

text \<open>Two hexadecimal digits are an integer below 256: the rounding changes nothing.\<close>

lemma parseInt16_two:
  assumes "length z = 2" "list_all isHex z"
  shows "parseInt16 z = Fin (real (hexValue z))"
proof -
  have "z \<noteq> []" using assms(1) by auto
  moreover have "hexValue z < 2 ^ 53" using hexValue_two[OF assms] by simp
  ultimately show ?thesis using assms(2) by (simp add: parseInt16_hex flj_nat)
qed

lemma remove1_hash_hex: "list_all isHex ds \<Longrightarrow> remove1 CHR ''#'' ds = ds"
  by (induction ds) (auto dest: isHex_not_sign)

lemma slice_hex: "list_all isHex ds \<Longrightarrow> list_all isHex (slice a b ds)"
  by (auto simp: slice_def list_all_iff dest: in_set_takeD in_set_dropD)

subsection \<open>\<open>tint\<close>\<close>

text \<open>
  What \<open>tint\<close> does on the inputs that the specification describes: it returns its input
  when the input is empty or does not have six characters once its first \<open>#\<close> is removed,
  and for six hexadecimal digits, with or without a leading \<open>#\<close>, it returns
  \<open>rgb(R, G, B)\<close> where each channel is the parsed channel times the factor, rounded, and
  clamped to \<open>[0, 255]\<close>.
\<close>

lemma tint_unchanged:
  "str = [] \<or> length (remove1 CHR ''#'' str) \<noteq> 6 \<Longrightarrow> tint f str k = str"
  by (auto simp: tint_def)

lemma tint_hex:
  assumes "length ds = 6" "list_all isHex ds"
  shows "tint f ds k =
           rgbText f (channel (slice 0 2 ds) k) (channel (slice 2 4 ds) k) (channel (slice 4 6 ds) k)"
proof -
  have len: "length (slice 0 2 ds) = 2" "length (slice 2 4 ds) = 2" "length (slice 4 6 ds) = 2"
    using assms(1) by (simp_all add: slice_def)
  have p: "parseInt16 (slice 0 2 ds) = Fin (real (hexValue (slice 0 2 ds)))"
      "parseInt16 (slice 2 4 ds) = Fin (real (hexValue (slice 2 4 ds)))"
      "parseInt16 (slice 4 6 ds) = Fin (real (hexValue (slice 4 6 ds)))"
    using len slice_hex[OF assms(2)] by (simp_all add: parseInt16_two)
  have d: "ds \<noteq> []" using assms(1) by auto
  show ?thesis
    unfolding tint_def Let_def remove1_hash_hex[OF assms(2)] p rgbText_def channel_def
    using assms(1) d by simp
qed

lemma tint_hash_hex:
  assumes "length ds = 6" "list_all isHex ds"
  shows "tint f (CHR ''#'' # ds) k = tint f ds k"
  using assms by (auto simp: tint_def remove1_hash_hex)

lemma channel_range: "channel two k = Fin v \<Longrightarrow> 0 \<le> v \<and> v \<le> 255"
  unfolding channel_def by (rule clamp_range)

lemma tint_changed:
  assumes "str \<noteq> []" "length (remove1 CHR ''#'' str) = 6"
  shows "tint f str k \<noteq> str"
proof -
  have "length str \<le> 7" using assms(2) by (simp add: length_remove1 split: if_splits)
  moreover have "length (tint f str k) \<ge> 9" using assms by (simp add: tint_def Let_def)
  ultimately show ?thesis by auto
qed

lemma tint_examples:
  "tint showNum ''#808080'' 1 = ''rgb(128, 128, 128)''"
  "tint showNum ''808080'' 0.5 = ''rgb(64, 64, 64)''"
  "tint showNum ''#ffffff'' 2 = ''rgb(255, 255, 255)''"
  "tint showNum ''bad'' 1.5 = ''bad''"
  by (simp_all add: tint_def slice_def parseInt16_def isWhite_def hexDigit_def hexValue_def
      clamp_def js_max_def js_min_def Let_def showNum_def flj_small)

text \<open>The name of a colour that has six letters is not returned unchanged either.\<close>

lemma tint_named_colour:
  "tint showNum ''yellow'' 1.5 = ''rgb(NaN, NaN, NaN)''"
  by (simp add: tint_def slice_def parseInt16_def isWhite_def hexDigit_def clamp_def
      js_max_def js_min_def Let_def showNum_def)

text \<open>
  C8. \<open>tint\<close> is to return a malformed input unchanged. It tests the length only: a string
  of six characters that are not hexadecimal digits, with or without a leading \<open>#\<close>, is
  not returned unchanged. \<open>parseInt\<close> gives \<open>NaN\<close> on each pair of them, and the result is
  the string \<open>rgb(NaN, NaN, NaN)\<close>. That string starts with \<open>rgb\<close>, so \<open>rgbToHslTuple\<close>
  does not answer it with the null sentinel, on which its caller falls back to a default
  colour, but with a triple whose saturation and lightness are \<open>NaN\<close>.
\<close>

theorem tint_malformed_not_unchanged:
  "tint showNum ''#gggggg'' 1.5 = ''rgb(NaN, NaN, NaN)'' \<and>
   tint showNum ''#gggggg'' 1.5 \<noteq> ''#gggggg'' \<and>
   rgbToHslTuple ''rgb(NaN, NaN, NaN)'' = Some (Fin 0, NaN, NaN)"
  by (simp add: tint_def slice_def parseInt16_def isWhite_def hexDigit_def clamp_def
      js_max_def js_min_def Let_def showNum_def rgbToHslTuple_def startsWith_def
      isNumChar_def isDigit_def nthOrNaN_def hslOfRgb_def js_sne_def js_seq_def js_sub_def
      js_gt_def flj_small)

subsection \<open>\<open>rgbToHslTuple\<close>\<close>

text \<open>
  What \<open>rgbToHslTuple\<close> does on the inputs that the specification describes: the null
  sentinel for an input that neither starts with \<open>#\<close> with length 7 nor starts with
  \<open>rgb\<close>, and \<open>(0, 100, 50)\<close> for \<open>#ff0000\<close>.
\<close>

lemma rgbToHslTuple_other:
  "\<not> (startsWith other ''#'' \<and> length other = 7) \<Longrightarrow> \<not> startsWith other ''rgb'' \<Longrightarrow>
     rgbToHslTuple other = None"
  by (simp add: rgbToHslTuple_def Let_def)

lemma rgbToHslTuple_examples:
  "rgbToHslTuple ''#ff0000'' = Some (Fin 0, Fin 100, Fin 50)"
  "rgbToHslTuple ''bad'' = None"
  by (simp_all add: rgbToHslTuple_def startsWith_def slice_def parseInt16_def isWhite_def
      hexDigit_def hexValue_def hslOfRgb_def js_max_def js_min_def js_sne_def js_seq_def
      js_sub_def js_gt_def flj_small)

text \<open>
  Two inputs that start with \<open>rgb\<close> on which the result is a triple that is out of the
  ranges. A red channel of 309 digits is too large for a double: \<open>Number\<close> gives
  \<open>Infinity\<close>, and the result is \<open>(0, NaN, Infinity)\<close>.
\<close>

lemma decValue_nines_aux:
  "foldl (\<lambda>acc c. 10 * acc + ((of_char c :: nat) - 48)) a (replicate n CHR ''9'')
     = a * 10 ^ n + (10 ^ n - 1)"
proof (induction n arbitrary: a)
  case 0 then show ?case by simp
next
  case (Suc n)
  have "(1 :: nat) \<le> 10 ^ n" by simp
  then have "(10 * a + 9) * 10 ^ n + (10 ^ n - 1) = a * 10 ^ Suc n + (10 ^ Suc n - 1)"
    by (simp add: algebra_simps)
  then show ?case using Suc[of "10 * a + 9"] by simp
qed

lemma decValue_nines: "decValue (replicate n CHR ''9'') = 10 ^ n - 1"
  using decValue_nines_aux[of 0 n] by (simp add: decValue_def)

lemma toNumber_overflow: "toNumber (replicate 309 CHR ''9'') = PInf"
proof -
  have d: "list_all isDigit (replicate 309 CHR ''9'')" by (simp add: list_all_iff isDigit_def)
  then have t: "takeWhile isDigit (replicate 309 CHR ''9'') = replicate 309 CHR ''9''"
    "dropWhile isDigit (replicate 309 CHR ''9'') = []"
    by (simp_all add: list_all_iff)
  have "pow2 1025 \<le> real (10 ^ 309 - 1)" by (simp add: pow2_def)
  then have "flj (real (10 ^ 309 - 1)) = PInf" by (rule flj_overflow)
  then show ?thesis unfolding toNumber_def Let_def t decValue_nines by simp
qed

lemma numRuns_run:
  assumes "list_all isNumChar ds" "ds \<noteq> []" "rest = [] \<or> \<not> isNumChar (hd rest)"
  shows "numRuns (ds @ rest) = ds # numRuns rest"
proof -
  obtain c cs where ds: "ds = c # cs" using assms(2) by (cases ds) auto
  have c: "isNumChar c" "list_all isNumChar cs" using assms(1) ds by simp_all
  have r: "takeWhile isNumChar rest = []" "dropWhile isNumChar rest = rest"
    using assms(3) by (cases rest; auto)+
  have "takeWhile isNumChar (cs @ rest) = cs" "dropWhile isNumChar (cs @ rest) = rest"
    using c(2) r by (simp_all add: list_all_iff takeWhile_append2 dropWhile_append2)
  then show ?thesis using c(1) by (simp add: ds)
qed

lemma hslOfRgb_infinite: "hslOfRgb PInf (Fin 0) (Fin 0) = (Fin 0, NaN, PInf)"
  by (simp add: hslOfRgb_def js_max_def js_min_def js_sne_def js_seq_def js_sub_def
      js_gt_def js_inf_def flj_small)

lemma rgbToHslTuple_overflow:
  "rgbToHslTuple (''rgb('' @ replicate 309 CHR ''9'' @ '', 0, 0)'') = Some (Fin 0, NaN, PInf)"
proof -
  have n: "numRuns (''rgb('' @ replicate 309 CHR ''9'' @ '', 0, 0)'')
      = [replicate 309 CHR ''9'', ''0'', ''0'']"
    using numRuns_run[of "replicate 309 CHR ''9''" "'', 0, 0)''"]
    by (simp add: isNumChar_def isDigit_def list_all_iff)
  have z: "toNumber ''0'' = Fin 0"
    by (simp add: toNumber_def isDigit_def decValue_def flj_small)
  show ?thesis
    unfolding rgbToHslTuple_def n Let_def
    by (simp add: startsWith_def nthOrNaN_def toNumber_overflow z hslOfRgb_infinite)
qed

text \<open>
  With the channels \<open>255\<close>, \<open>0\<close> and \<open>10^-13\<close> the hue is \<open>((0 - b) / 1 + 6) / 6 * 360\<close>
  for a \<open>b\<close> of \<open>3.92 * 10^-16\<close>; the sum \<open>6 - b\<close> rounds to 6, and the hue is 360, the
  end of the range that is excluded.
\<close>

lemma rgbToHslTuple_hue_360:
  "rgbToHslTuple ''rgb(255, 0, 0.0000000000001)'' = Some (Fin 360, Fin 100, Fin 50)"
proof -
  have a: "flj (1 / 10000000000000) = Fin (3961408125713217 / 39614081257132168796771975168)"
    by (rule flj_val[of "- 44" _ 7922816251426434]) (simp_all add: pow2_def)
  have b: "flj (1320469375237739 / 3367196906856234347725617889280)
      = Fin (7953886119079087 / 20282409603651670423947251286016)"
    by (rule flj_val[of "- 52" _ 7953886119079087]) (simp_all add: pow2_def)
  have c: "flj (- (7953886119079087 / 20282409603651670423947251286016))
      = Fin (- (7953886119079087 / 20282409603651670423947251286016))"
    by (rule flj_val[of "- 52" _ "- 7953886119079087"]) (simp_all add: pow2_def)
  have d: "flj (121694457621910014589797388637009 / 20282409603651670423947251286016) = Fin 6"
    by (rule flj_val[of 2 _ 6755399441055744]) (simp_all add: pow2_def)
  show ?thesis
    by (simp add: rgbToHslTuple_def startsWith_def isNumChar_def isDigit_def nthOrNaN_def
        toNumber_def decValue_def hslOfRgb_def js_max_def js_min_def js_sne_def js_seq_def
        js_sub_def js_gt_def Let_def flj_small a b c d)
qed

text \<open>
  C9. \<open>rgbToHslTuple\<close> is to return the null sentinel, or a triple of numbers with the hue
  in \<open>[0, 360)\<close> and the saturation and the lightness in \<open>[0, 100]\<close>. It tests only the prefix
  and the length of its input: seven characters that start with \<open>#\<close> pass the test whatever
  the six others are, and \<open>parseInt\<close> gives \<open>NaN\<close> on them. The result is not the null
  sentinel, and its saturation and its lightness are \<open>NaN\<close>.
\<close>

theorem rgbToHslTuple_NaN_components:
  "rgbToHslTuple ''#gggggg'' = Some (Fin 0, NaN, NaN)"
  by (simp add: rgbToHslTuple_def startsWith_def slice_def parseInt16_def isWhite_def
      hexDigit_def hslOfRgb_def js_max_def js_min_def js_sne_def js_seq_def js_sub_def
      js_gt_def flj_small)

section \<open>Properties of the occupancy grid\<close>

text \<open>Stamping changes the weights of the grid and nothing else.\<close>

lemma stampCell_sim: "\<exists>g. stampCell cy cx s = s\<lparr>grid := g\<rparr>"
proof (cases "cx < 0 \<or> cy < 0 \<or> cx \<ge> gridCols s \<or> cy \<ge> gridRows s")
  case True
  then have "stampCell cy cx s = s\<lparr>grid := grid s\<rparr>" by (simp add: stampCell_def)
  then show ?thesis by blast
next
  case False
  then show ?thesis by (auto simp: stampCell_def Let_def)
qed

lemma fold_stampCell_sim: "\<exists>g. fold (stampCell cy) cs s = s\<lparr>grid := g\<rparr>"
proof (induction cs arbitrary: s)
  case Nil
  have "s = s\<lparr>grid := grid s\<rparr>" by simp
  then show ?case by (metis fold_simps(1))
next
  case (Cons c cs)
  obtain g where g: "stampCell cy c s = s\<lparr>grid := g\<rparr>" using stampCell_sim by blast
  obtain g' where "fold (stampCell cy) cs (s\<lparr>grid := g\<rparr>) = s\<lparr>grid := g\<rparr>\<lparr>grid := g'\<rparr>"
    using Cons.IH by blast
  then show ?case using g by (auto intro: exI[of _ g'])
qed

lemma fold_rows_sim: "\<exists>g. fold (\<lambda>cy. fold (stampCell cy) cs) rs s = s\<lparr>grid := g\<rparr>"
proof (induction rs arbitrary: s)
  case Nil
  have "s = s\<lparr>grid := grid s\<rparr>" by simp
  then show ?case by (metis fold_simps(1))
next
  case (Cons r rs)
  obtain g where g: "fold (stampCell r) cs s = s\<lparr>grid := g\<rparr>"
    using fold_stampCell_sim by blast
  obtain g' where
    "fold (\<lambda>cy. fold (stampCell cy) cs) rs (s\<lparr>grid := g\<rparr>) = s\<lparr>grid := g\<rparr>\<lparr>grid := g'\<rparr>"
    using Cons.IH by blast
  then show ?case using g by (auto intro: exI[of _ g'])
qed

lemma stampOccupancy_sim: "\<exists>g. stampOccupancy x y r s = s\<lparr>grid := g\<rparr>"
  unfolding stampOccupancy_def Let_def by (rule fold_rows_sim)

lemma lowestOccupancyTarget_cong:
  "width s1 = width s2 \<Longrightarrow> height s1 = height s2 \<Longrightarrow>
   lowestOccupancyTarget s1 now = lowestOccupancyTarget s2 now"
  by (simp add: lowestOccupancyTarget_def)

lemma stamps_dims:
  "width (fold (\<lambda>(x, y, r). stampOccupancy x y r) st s) = width s \<and>
   height (fold (\<lambda>(x, y, r). stampOccupancy x y r) st s) = height s"
proof (induction st arbitrary: s)
  case Nil
  show ?case by simp
next
  case (Cons a st)
  obtain x y r where a: "a = (x, y, r)" by (cases a) auto
  obtain g where g: "stampOccupancy x y r s = s\<lparr>grid := g\<rparr>"
    using stampOccupancy_sim by blast
  show ?case using Cons.IH[of "s\<lparr>grid := g\<rparr>"] a g by simp
qed

text \<open>
  C2. Take two states of the closure with the same canvas width and height, whatever
  their grids, and stamp each with any sequence of calls of \<open>stampOccupancy\<close>: at the
  same time, \<open>lowestOccupancyTarget\<close> returns the same point in both.
\<close>

theorem lowestOccupancyTarget_ignores_grid:
  assumes "width s1 = width s2" "height s1 = height s2"
  shows "lowestOccupancyTarget (fold (\<lambda>(x, y, r). stampOccupancy x y r) st1 s1) now =
         lowestOccupancyTarget (fold (\<lambda>(x, y, r). stampOccupancy x y r) st2 s2) now"
  using assms stamps_dims[of st1 s1] stamps_dims[of st2 s2]
  by (intro lowestOccupancyTarget_cong) simp_all

theorem lowestOccupancyTarget_ignores_grid_witness:
  "width (initialSim 200 100 1 []) = width (initialSim 200 100 2 []) \<and>
   height (initialSim 200 100 1 []) = height (initialSim 200 100 2 []) \<and>
   grid (fold (\<lambda>(x, y, r). stampOccupancy x y r) [(120, 50, 30)] (initialSim 200 100 1 []))
     = [0.35, 0.35] \<and>
   grid (fold (\<lambda>(x, y, r). stampOccupancy x y r) [] (initialSim 200 100 2 [])) = [0, 0] \<and>
   lowestOccupancyTarget
     (fold (\<lambda>(x, y, r). stampOccupancy x y r) [(120, 50, 30)] (initialSim 200 100 1 [])) 0
     = (100, 54) \<and>
   lowestOccupancyTarget
     (fold (\<lambda>(x, y, r). stampOccupancy x y r) [] (initialSim 200 100 2 [])) 0 = (100, 54)"
  using lowestOccupancyTarget_ignores_grid[of "initialSim 200 100 1 []" "initialSim 200 100 2 []"
      "[(120, 50, 30)]" 0 "[]"]
  by (simp add: stampOccupancy_def initialSim_def allocateGrid_def gridCell_def stampCell_def
      Let_def upto.simps eval_nat_numeral lowestOccupancyTarget_def)

text \<open>
  C7, as the claim states it, fails: \<open>allocateGrid\<close> never makes fewer than one column or
  one row. On a resize to a width of 0 the grid has one column, where the ceiling of
  \<open>0 / 100\<close> is 0.
\<close>

theorem resize_to_zero_width_one_column:
  "gridCols (handleResize defaultProps exampleEnv 0 600 (\<lambda>i. 0) (initialSim 800 600 1 [])) = 1 \<and>
   \<lceil>(0 :: real) / gridCell\<rceil> = 0"
  by (simp add: handleResize_def initialSim_def allocateGrid_def gridCell_def Let_def draw_def)

text \<open>
  C7, amended. When \<open>handleResize\<close> finds the size \<open>(w2, h2)\<close> different from the current
  one, the grid it reallocates has \<open>max(1, ceil(w2 / 100))\<close> columns and
  \<open>max(1, ceil(h2 / 100))\<close> rows, which is \<open>ceil(w2 / 100)\<close> and \<open>ceil(h2 / 100)\<close> for
  positive sizes, and every weight is zero. When the size is the current one,
  \<open>handleResize\<close> changes nothing.
\<close>

theorem handleResize_grid:
  "(nextWidth = width s \<and> nextHeight = height s \<longrightarrow>
      handleResize P E nextWidth nextHeight nowD s = s) \<and>
   (nextWidth \<noteq> width s \<or> nextHeight \<noteq> height s \<longrightarrow>
     (let s' = handleResize P E nextWidth nextHeight nowD s in
        gridCols s' = max 1 \<lceil>nextWidth / 100\<rceil> \<and> gridRows s' = max 1 \<lceil>nextHeight / 100\<rceil> \<and>
        (0 < nextWidth \<longrightarrow> gridCols s' = \<lceil>nextWidth / 100\<rceil>) \<and>
        (0 < nextHeight \<longrightarrow> gridRows s' = \<lceil>nextHeight / 100\<rceil>) \<and>
        length (grid s') = nat (gridCols s' * gridRows s') \<and>
        (\<forall>w \<in> set (grid s'). w = 0)))"
  by (auto simp: handleResize_def Let_def draw_def allocateGrid_def gridCell_def max_def)

theorem handleResize_grid_witness:
  "250 \<noteq> width (stampOccupancy 120 50 30 (initialSim 200 100 1 [])) \<and>
   (0 :: real) < 250 \<and> (0 :: real) < 100 \<and>
   gridCols (handleResize defaultProps exampleEnv 250 100 (\<lambda>i. 0)
      (stampOccupancy 120 50 30 (initialSim 200 100 1 []))) = 3 \<and>
   gridRows (handleResize defaultProps exampleEnv 250 100 (\<lambda>i. 0)
      (stampOccupancy 120 50 30 (initialSim 200 100 1 []))) = 1 \<and>
   grid (handleResize defaultProps exampleEnv 250 100 (\<lambda>i. 0)
      (stampOccupancy 120 50 30 (initialSim 200 100 1 []))) = [0, 0, 0] \<and>
   handleResize defaultProps exampleEnv 200 100 (\<lambda>i. 0) (initialSim 200 100 1 [])
     = initialSim 200 100 1 []"
  using handleResize_grid[of 250 "stampOccupancy 120 50 30 (initialSim 200 100 1 [])" 100
      defaultProps exampleEnv "\<lambda>i. 0"]
    handleResize_grid[of 200 "initialSim 200 100 1 []" 100 defaultProps exampleEnv "\<lambda>i. 0"]
  by (simp add: stampOccupancy_def initialSim_def allocateGrid_def gridCell_def stampCell_def
      Let_def upto.simps eval_nat_numeral handleResize_def draw_def)

section \<open>Properties of the frame scheduler\<close>

lemma frame_hidden:
  "frame P E True t nowP nowD s =
     s\<lparr>animRef := Suc (rafRequests s), rafRequests := Suc (rafRequests s)\<rparr>"
  by (simp add: frame_def requestAnimationFrame_def)

lemma hidden_ticks_sim:
  "\<exists>a n. fold (\<lambda>(t, nowP, nowD). frame P E True t nowP nowD) ticks s
           = s\<lparr>animRef := a, rafRequests := n\<rparr>"
proof (induction ticks arbitrary: s)
  case Nil
  have "s = s\<lparr>animRef := animRef s, rafRequests := rafRequests s\<rparr>" by simp
  then show ?case by (metis fold_simps(1))
next
  case (Cons a ticks)
  obtain t nowP nowD where a: "a = (t, nowP, nowD)" by (cases a) auto
  let ?s1 = "s\<lparr>animRef := Suc (rafRequests s), rafRequests := Suc (rafRequests s)\<rparr>"
  obtain b n where bn:
    "fold (\<lambda>(t, nowP, nowD). frame P E True t nowP nowD) ticks ?s1
       = ?s1\<lparr>animRef := b, rafRequests := n\<rparr>"
    using Cons.IH by blast
  have "fold (\<lambda>(t, nowP, nowD). frame P E True t nowP nowD) (a # ticks) s
      = fold (\<lambda>(t, nowP, nowD). frame P E True t nowP nowD) ticks ?s1"
    unfolding a by (simp only: fold_simps prod.case frame_hidden)
  also have "\<dots> = s\<lparr>animRef := b, rafRequests := n\<rparr>"
    unfolding bn by simp
  finally show ?case by blast
qed

text \<open>
  C6. A tick of the scheduler while the host surface is hidden requests the next tick and
  does nothing else: the bubbles, the occupancy grid, the canvas, the accumulated time and
  the time of the last tick are what they were. The same holds after any number of such
  ticks.
\<close>

theorem hidden_tick_only_reschedules:
  "frame P E True t nowP nowD s =
     s\<lparr>animRef := Suc (rafRequests s), rafRequests := Suc (rafRequests s)\<rparr> \<and>
   (let s' = fold (\<lambda>(t, nowP, nowD). frame P E True t nowP nowD) ticks s
    in bubbles s' = bubbles s \<and> grid s' = grid s \<and> gridCols s' = gridCols s \<and>
       gridRows s' = gridRows s \<and> painted s' = painted s \<and> canvasWidth s' = canvasWidth s \<and>
       canvasHeight s' = canvasHeight s \<and> ctxScale s' = ctxScale s \<and>
       accumulatedTime s' = accumulatedTime s \<and> lastTime s' = lastTime s \<and>
       width s' = width s \<and> height s' = height s \<and> fpsCounter s' = fpsCounter s \<and>
       fpsStart s' = fpsStart s \<and> consoleLog s' = consoleLog s)"
proof -
  obtain a n where
    "fold (\<lambda>(t, nowP, nowD). frame P E True t nowP nowD) ticks s = s\<lparr>animRef := a, rafRequests := n\<rparr>"
    using hidden_ticks_sim by blast
  then show ?thesis by (simp add: frame_hidden)
qed

section \<open>Properties of the physics\<close>

subsection \<open>One bubble\<close>

lemma hypot_0_right: "hypot a 0 = \<bar>a\<bar>"
  by (simp add: hypot_def)

lemma hypot_nonneg: "0 \<le> hypot a b"
  by (simp add: hypot_def)

lemma hypot_triangle: "hypot (a + c) (b + d) \<le> hypot a b + hypot c d"
  using real_sqrt_sum_squares_triangle_ineq[of a c b d] by (simp add: hypot_def power2_eq_square)

lemma hypot_le_abs: "hypot a b \<le> \<bar>a\<bar> + \<bar>b\<bar>"
  using sqrt_sum_squares_le_sum_abs[of a b] by (simp add: hypot_def power2_eq_square)

lemma abs_le_hypot: "\<bar>a\<bar> \<le> hypot a b" "\<bar>b\<bar> \<le> hypot a b"
proof -
  have "sqrt (a * a) \<le> sqrt (a * a + b * b)" "sqrt (b * b) \<le> sqrt (a * a + b * b)"
    by (intro real_sqrt_le_mono, simp)+
  then show "\<bar>a\<bar> \<le> hypot a b" "\<bar>b\<bar> \<le> hypot a b" by (simp_all add: hypot_def)
qed

lemma hypot_scale: 
  assumes "0 \<le> k"
  shows "hypot (k * a) (k * b) = k * hypot a b"
proof -
  have "(k * a) * (k * a) + (k * b) * (k * b) = (k * k) * (a * a + b * b)"
    by (simp add: algebra_simps)
  then have "hypot (k * a) (k * b) = sqrt ((k * k) * (a * a + b * b))" by (simp add: hypot_def)
  also have "\<dots> = sqrt (k * k) * sqrt (a * a + b * b)" by (rule real_sqrt_mult)
  also have "sqrt (k * k) = k" using assms by simp
  finally show ?thesis by (simp add: hypot_def)
qed

text \<open>The square root between two bounds, and its rounding, from the squares of the bounds.\<close>

lemma hypot_between:
  assumes "0 \<le> lo" "lo * lo < a * a + b * b" "a * a + b * b < hi * hi" "0 \<le> hi"
  shows "lo < hypot a b" "hypot a b < hi"
proof -
  have "lo\<^sup>2 < a * a + b * b" using assms(2) by (simp add: power2_eq_square)
  then show "lo < hypot a b" unfolding hypot_def by (rule real_less_rsqrt)
  have "a * a + b * b < hi\<^sup>2" using assms(3) by (simp add: power2_eq_square)
  then show "hypot a b < hi" unfolding hypot_def using assms(4) by (intro real_less_lsqrt) simp_all
qed

lemma fl_hypot_val:
  assumes m: "2 ^ 52 < m" "m < 2 ^ 53" and e: "- 1022 \<le> e"
    and lo: "((of_int m - 1 / 2) * pow2 (e - 52)) * ((of_int m - 1 / 2) * pow2 (e - 52)) < a * a + b * b"
    and hi: "a * a + b * b < ((of_int m + 1 / 2) * pow2 (e - 52)) * ((of_int m + 1 / 2) * pow2 (e - 52))"
    and y: "y = of_int m * pow2 (e - 52)"
  shows "fl (hypot a b) = y"
proof -
  define u where "u = pow2 (e - 52)"
  have u: "0 < u" unfolding u_def by (rule pow2_pos)
  have mr: "(2 :: real) ^ 52 + 1 \<le> of_int m" "(of_int m :: real) \<le> 2 ^ 53 - 1"
  proof -
    have "(2 :: int) ^ 52 + 1 \<le> m" "m \<le> 2 ^ 53 - 1" using m by simp_all
    then have "(of_int ((2 :: int) ^ 52 + 1) :: real) \<le> of_int m" "(of_int m :: real) \<le> of_int (2 ^ 53 - 1)"
      by (simp_all only: of_int_le_iff)
    then show "(2 :: real) ^ 52 + 1 \<le> of_int m" "(of_int m :: real) \<le> 2 ^ 53 - 1" by simp_all
  qed
  have b: "(of_int m - 1 / 2) * u < hypot a b" "hypot a b < (of_int m + 1 / 2) * u"
    using hypot_between[of "(of_int m - 1 / 2) * u" a b "(of_int m + 1 / 2) * u"] lo hi mr u
    unfolding u_def[symmetric] by simp_all
  have pe: "pow2 e = 2 ^ 52 * u" "pow2 (e + 1) = 2 ^ 53 * u"
    using pow2_add[of 52 "e - 52"] pow2_add[of 53 "e - 52"]
    by (simp_all add: u_def pow2_def[of 52] pow2_def[of 53] add.commute)
  have "2 ^ 52 * u \<le> (of_int m - 1 / 2) * u" using mr u by (intro mult_right_mono) simp_all
  then have h1: "pow2 e \<le> \<bar>hypot a b\<bar>" using b(1) pe by simp
  have "(of_int m + 1 / 2) * u \<le> 2 ^ 53 * u" using mr u by (intro mult_right_mono) simp_all
  then have h2: "\<bar>hypot a b\<bar> < pow2 (e + 1)" using b(2) pe hypot_nonneg[of a b] by simp
  have "(of_int m - 1 / 2) < hypot a b / u" "hypot a b / u < (of_int m + 1 / 2)"
    using b u by (simp_all add: field_simps)
  then have h3: "\<bar>hypot a b / pow2 (e - 52) - of_int m\<bar> < 1 / 2"
    unfolding u_def[symmetric] by linarith
  show ?thesis using fl_eqI[OF h1 h2 e h3] y by simp
qed

lemma hypotAccurate_rounded: "hypotAccurate roundedHypot"
  unfolding hypotAccurate_def roundedHypot_def
proof (intro allI)
  fix a b
  have "\<bar>fl (hypot a b) - hypot a b\<bar> \<le> \<bar>hypot a b\<bar> * pow2 (- 53) + pow2 (- 1075)"
    by (rule fl_error)
  also have "\<bar>hypot a b\<bar> = hypot a b" using hypot_nonneg[of a b] by simp
  also have "hypot a b * pow2 (- 53) \<le> hypot a b * pow2 (- 48)"
    using hypot_nonneg[of a b] pow2_mono[of "- 53" "- 48"] by (intro mult_left_mono) simp_all
  also have "pow2 (- 1075) \<le> pow2 (- 1074)" by (rule pow2_mono) simp
  finally show "\<bar>fl (hypot a b) - hypot a b\<bar> \<le> hypot a b * pow2 (- 48) + pow2 (- 1074)" by simp
qed

lemma hypot_mono:
  assumes "\<bar>a\<bar> \<le> \<bar>c\<bar>" "\<bar>b\<bar> \<le> \<bar>d\<bar>"
  shows "hypot a b \<le> hypot c d"
proof -
  have "a * a \<le> c * c" "b * b \<le> d * d"
    using assms by (metis abs_mult_self_eq abs_ge_zero mult_mono)+
  then show ?thesis unfolding hypot_def by (intro real_sqrt_le_mono) linarith
qed

lemma hypot_scaled:
  assumes "hypot a b > 0"
  shows "hypot (a / hypot a b * m) (b / hypot a b * m) = \<bar>m\<bar>"
proof -
  define v where "v = hypot a b"
  have v2: "v * v = a * a + b * b" and vp: "v > 0"
    using assms unfolding v_def hypot_def
    by (auto simp: real_sqrt_mult_self abs_of_nonneg intro: sum_squares_ge_zero)
  have "(a / v * m) * (a / v * m) + (b / v * m) * (b / v * m)
      = (a * a + b * b) / (v * v) * (m * m)"
    using vp by (simp add: field_simps)
  also have "\<dots> = m * m"
  proof -
    have "(a * a + b * b) / (v * v) = 1" using vp by (simp add: v2[symmetric])
    then show ?thesis by (simp only: mult_1)
  qed
  finally have "hypot (a / v * m) (b / v * m) = sqrt (m * m)" unfolding hypot_def by simp
  then show ?thesis unfolding v_def by simp
qed

text \<open>
  In ideal arithmetic, whatever the force, a bubble leaves the integration no faster than
  the limit.
\<close>

lemma moveBubble_speed: "hypot (vx (moveBubble W H f b)) (vy (moveBubble W H f b)) \<le> maxVel"
proof -
  define vx1 where "vx1 = (vx b + fst f) * 0.93"
  define vy1 where "vy1 = (vy b + snd f) * 0.93"
  define vel where "vel = hypot vx1 vy1"
  define vx2 where "vx2 = (if vel > maxVel then vx1 / vel * maxVel else vx1)"
  define vy2 where "vy2 = (if vel > maxVel then vy1 / vel * maxVel else vy1)"
  have c: "hypot vx2 vy2 \<le> maxVel"
  proof (cases "vel > maxVel")
    case True
    then have "hypot vx1 vy1 > 0" unfolding vel_def maxVel_def by simp
    from hypot_scaled[OF this, of maxVel] show ?thesis
      using True unfolding vx2_def vy2_def vel_def maxVel_def by simp
  next
    case False
    then show ?thesis unfolding vx2_def vy2_def vel_def by simp
  qed
  have "\<bar>vx (moveBubble W H f b)\<bar> \<le> \<bar>vx2\<bar>" "\<bar>vy (moveBubble W H f b)\<bar> \<le> \<bar>vy2\<bar>"
    unfolding moveBubble_def Let_def split_def vx1_def[symmetric] vy1_def[symmetric]
      vel_def[symmetric] vx2_def[symmetric] vy2_def[symmetric]
    by (auto simp: abs_mult)
  from hypot_mono[OF this] c show ?thesis by linarith
qed

lemma moveBubble_pos:
  "(rad b * 0.6 \<le> W - rad b * 0.6 \<longrightarrow>
      rad b * 0.6 \<le> xpos (moveBubble W H f b) \<and> xpos (moveBubble W H f b) \<le> W - rad b * 0.6) \<and>
   (rad b * 0.6 \<le> H - rad b * 0.6 \<longrightarrow>
      rad b * 0.6 \<le> ypos (moveBubble W H f b) \<and> ypos (moveBubble W H f b) \<le> H - rad b * 0.6)"
  unfolding moveBubble_def Let_def by (auto simp: split_def)

lemma moveBubble_sim:
  "\<exists>x y u v. moveBubble W H f b = b\<lparr>xpos := x, ypos := y, vx := u, vy := v\<rparr>"
  unfolding moveBubble_def Let_def split_def by blast

lemma moveBubble_rad: "rad (moveBubble W H f b) = rad b"
  using moveBubble_sim[of W H f b] by auto

lemma rNow_moveBubble: "rNow P tD (moveBubble W H f b) = rNow P tD b"
proof -
  obtain x y u v where eq: "moveBubble W H f b = b\<lparr>xpos := x, ypos := y, vx := u, vy := v\<rparr>"
    using moveBubble_sim by blast
  show ?thesis unfolding eq rNow_def by simp
qed

lemma rNow_range:
  "rNow P tD b \<le> radiusMax P \<and> (radiusMin P \<le> radiusMax P \<longrightarrow> radiusMin P \<le> rNow P tD b)"
  by (simp add: rNow_def Let_def)

subsection \<open>The loop over the bubbles\<close>

lemma stepBubble_sim:
  "\<exists>g. stepBubble P E t target bal i s =
        s\<lparr>bubbles := stepBubbles P E t (width s) (height s) target bal i (bubbles s),
          grid := g\<rparr>"
proof -
  let ?b = "moveBubble (width s) (height s) (forces P E t target bal (bubbles s) i)
              (bubbles s ! i)"
  let ?s1 = "s\<lparr>bubbles := (bubbles s)[i := ?b]\<rparr>"
  obtain g where "stampOccupancy (xpos ?b) (ypos ?b) (rad ?b * 0.6) ?s1 = ?s1\<lparr>grid := g\<rparr>"
    using stampOccupancy_sim by blast
  then have "stepBubble P E t target bal i s = ?s1\<lparr>grid := g\<rparr>"
    by (simp add: stepBubble_def Let_def)
  then show ?thesis by (auto simp: stepBubbles_def)
qed

lemma fold_stepBubble_sim:
  "\<exists>g. fold (stepBubble P E t target bal) is s =
        s\<lparr>bubbles := fold (stepBubbles P E t (width s) (height s) target bal) is (bubbles s),
          grid := g\<rparr>"
proof (induction "is" arbitrary: s)
  case Nil
  have "s = s\<lparr>bubbles := bubbles s, grid := grid s\<rparr>" by simp
  then show ?case by (metis fold_simps(1))
next
  case (Cons i "is")
  let ?bs1 = "stepBubbles P E t (width s) (height s) target bal i (bubbles s)"
  obtain g where g: "stepBubble P E t target bal i s = s\<lparr>bubbles := ?bs1, grid := g\<rparr>"
    using stepBubble_sim by blast
  let ?s1 = "s\<lparr>bubbles := ?bs1, grid := g\<rparr>"
  obtain g' where g': "fold (stepBubble P E t target bal) is ?s1 =
      ?s1\<lparr>bubbles := fold (stepBubbles P E t (width ?s1) (height ?s1) target bal) is
                        (bubbles ?s1), grid := g'\<rparr>"
    using Cons.IH by blast
  have "fold (stepBubble P E t target bal) (i # is) s
      = fold (stepBubble P E t target bal) is ?s1"
    by (simp add: g)
  also have "\<dots> = s\<lparr>bubbles := fold (stepBubbles P E t (width s) (height s) target bal)
                                  (i # is) (bubbles s), grid := g'\<rparr>"
    unfolding g' by simp
  finally show ?case by blast
qed

lemma updatePhysics_sim:
  "\<exists>g. updatePhysics P E t now s =
        s\<lparr>bubbles := partialUpdate P E t (width s) (height s) (lowestOccupancyTarget s now)
                        (balance (width s) (height s) (bubbles s)) (length (bubbles s))
                        (bubbles s),
          grid := g\<rparr>"
  unfolding updatePhysics_def Let_def partialUpdate_def by (rule fold_stepBubble_sim)

lemma updatePhysics_bubbles:
  "bubbles (updatePhysics P E t now s) =
     partialUpdate P E t (width s) (height s) (lowestOccupancyTarget s now)
       (balance (width s) (height s) (bubbles s)) (length (bubbles s)) (bubbles s)"
  using updatePhysics_sim[of P E t now s] by auto

lemma partialUpdate_Suc:
  "partialUpdate P E t W H target bal (Suc k) bs = stepBubbles P E t W H target bal k (partialUpdate P E t W H target bal k bs)"
  by (simp add: partialUpdate_def)

lemma partialUpdate_length: "length (partialUpdate P E t W H target bal k bs) = length bs"
  by (induction k) (simp_all add: partialUpdate_Suc stepBubbles_def, simp add: partialUpdate_def)

text \<open>A turn of the loop leaves the bubbles that come later as they were.\<close>

lemma partialUpdate_untouched: "k \<le> j \<Longrightarrow> partialUpdate P E t W H target bal k bs ! j = bs ! j"
proof (induction k)
  case 0
  show ?case by (simp add: partialUpdate_def)
next
  case (Suc k)
  then show ?case by (simp add: partialUpdate_Suc stepBubbles_def)
qed

text \<open>Once its turn has passed, a bubble is not written again.\<close>

lemma partialUpdate_stable:
  "j < k \<Longrightarrow> k \<le> m \<Longrightarrow> partialUpdate P E t W H target bal m bs ! j = partialUpdate P E t W H target bal k bs ! j"
proof (induction m)
  case 0
  then show ?case by simp
next
  case (Suc m)
  show ?case
  proof (cases "k = Suc m")
    case True
    then show ?thesis by simp
  next
    case False
    then have km: "k \<le> m" using Suc.prems by simp
    then have "partialUpdate P E t W H target bal m bs ! j = partialUpdate P E t W H target bal k bs ! j" using Suc by simp
    moreover have "partialUpdate P E t W H target bal (Suc m) bs ! j = partialUpdate P E t W H target bal m bs ! j"
      using Suc.prems km by (simp add: partialUpdate_Suc stepBubbles_def)
    ultimately show ?thesis by simp
  qed
qed

lemma partialUpdate_at:
  assumes "i < length bs"
  shows "partialUpdate P E t W H target bal (Suc i) bs ! i = moveBubble W H (forces P E t target bal (partialUpdate P E t W H target bal i bs) i) (bs ! i)"
  using assms
  by (simp add: partialUpdate_Suc stepBubbles_def partialUpdate_length partialUpdate_untouched)

lemma partialUpdate_mixed:
  assumes "i \<le> n" "n \<le> length bs"
  shows "partialUpdate P E t W H target bal i bs = take i (partialUpdate P E t W H target bal n bs) @ drop i bs"
proof (rule nth_equalityI)
  show "length (partialUpdate P E t W H target bal i bs) = length (take i (partialUpdate P E t W H target bal n bs) @ drop i bs)"
    using assms by (simp add: partialUpdate_length)
next
  fix j
  assume "j < length (partialUpdate P E t W H target bal i bs)"
  then have j: "j < length bs" by (simp add: partialUpdate_length)
  show "partialUpdate P E t W H target bal i bs ! j = (take i (partialUpdate P E t W H target bal n bs) @ drop i bs) ! j"
  proof (cases "j < i")
    case True
    then show ?thesis
      using assms j partialUpdate_stable[of j i n P E t W H target bal bs]
      by (simp add: nth_append partialUpdate_length)
  next
    case False
    then show ?thesis
      using assms j by (simp add: nth_append partialUpdate_length partialUpdate_untouched)
  qed
qed

lemma partialUpdate_final:
  assumes "i < length bs"
  shows "partialUpdate P E t W H target bal (length bs) bs ! i =
     moveBubble W H (forces P E t target bal (take i (partialUpdate P E t W H target bal (length bs) bs) @ drop i bs) i)
       (bs ! i)"
proof -
  have "partialUpdate P E t W H target bal (length bs) bs ! i = partialUpdate P E t W H target bal (Suc i) bs ! i"
    using assms partialUpdate_stable[of i "Suc i" "length bs" P E t W H target bal bs] by simp
  also have "\<dots> = moveBubble W H (forces P E t target bal (partialUpdate P E t W H target bal i bs) i) (bs ! i)"
    using assms by (rule partialUpdate_at)
  also have "partialUpdate P E t W H target bal i bs = take i (partialUpdate P E t W H target bal (length bs) bs) @ drop i bs"
    using assms by (intro partialUpdate_mixed) simp_all
  finally show ?thesis .
qed

subsection \<open>Two frames worked out\<close>

text \<open>
  In the examples the bubbles sit at the height of the target, so that nothing pushes them
  up or down and every square root is that of a square.
\<close>

lemma pushFrom_level:
  assumes "ypos b = ypos ob"
  shows "pushFrom b ob =
     (let dx = xpos b - xpos ob; minD = (rad b + rad ob) * 0.65
      in if dx * dx < minD * minD \<and> dx * dx > 0.001
         then (dx / \<bar>dx\<bar> * ((minD - \<bar>dx\<bar>) / minD) * 1.8, 0) else (0, 0))"
  using assms by (simp add: pushFrom_def Let_def)

lemma exampleSim_fields:
  "width exampleSim = 1000" "height exampleSim = 1000"
  "bubbles exampleSim = [exampleBubble 400, exampleBubble 600]"
  "lowestOccupancyTarget exampleSim 0 = (500, 540)"
  by (simp_all add: exampleSim_def initialSim_def allocateGrid_def Let_def
      lowestOccupancyTarget_def)

lemma example_balance:
  "balance 1000 1000 [exampleBubble 400, exampleBubble 600] = (0, - 0.006)"
  by (simp_all add: balance_def exampleBubble_def Let_def)

lemmas physics_eval = stepBubbles_def forces_def flowForce_def separation_def
  pushFrom_level coverage_def tether_def moveBubble_def exampleBubble_def defaultProps_def
  exampleEnv_def hypot_0_right maxVel_def Let_def

lemma example_turn0:
  "stepBubbles defaultProps exampleEnv 0 1000 1000 (500, 540) (0, - (3 / 500)) 0
     [exampleBubble 400, exampleBubble 600]
   = [(exampleBubble 400)\<lparr>xpos := 208074434651 / 520005200, ypos := 540,
        vx := 72354651 / 520005200, vy := 0\<rparr>, exampleBubble 600]"
  by (simp add: physics_eval upt_rec)

lemma example_turn1:
  "stepBubbles defaultProps exampleEnv 0 1000 1000 (500, 540) (0, - (3 / 500)) (Suc 0)
     [(exampleBubble 400)\<lparr>xpos := 208074434651 / 520005200, ypos := 540,
        vx := 72354651 / 520005200, vy := 0\<rparr>, exampleBubble 600]
   = [(exampleBubble 400)\<lparr>xpos := 208074434651 / 520005200, ypos := 540,
        vx := 72354651 / 520005200, vy := 0\<rparr>,
      (exampleBubble 600)\<lparr>xpos := 40620215547760887 / 67600676000000, ypos := 540,
        vx := 59809947760887 / 67600676000000, vy := 0\<rparr>]"
  by (simp add: physics_eval upt_rec)

lemma example_inplace:
  "bubbles (updatePhysics defaultProps exampleEnv 0 0 exampleSim)
   = [(exampleBubble 400)\<lparr>xpos := 208074434651 / 520005200, ypos := 540,
        vx := 72354651 / 520005200, vy := 0\<rparr>,
      (exampleBubble 600)\<lparr>xpos := 40620215547760887 / 67600676000000, ypos := 540,
        vx := 59809947760887 / 67600676000000, vy := 0\<rparr>]"
  unfolding updatePhysics_bubbles exampleSim_fields example_balance partialUpdate_def
  by (simp add: upt_rec example_turn0 example_turn1)

lemma example_snapshot:
  "snapshotBubbles defaultProps exampleEnv 0 0 exampleSim
   = [(exampleBubble 400)\<lparr>xpos := 208074434651 / 520005200, ypos := 540,
        vx := 72354651 / 520005200, vy := 0\<rparr>,
      (exampleBubble 600)\<lparr>xpos := 1562313653343 / 2600026000, ypos := 540,
        vx := 2298053343 / 2600026000, vy := 0\<rparr>]"
  unfolding snapshotBubbles_def exampleSim_fields example_balance
  by (simp add: physics_eval upt_rec)

subsection \<open>What the forces of a frame read\<close>

text \<open>
  C1, as the claim states it, fails. \<open>updatePhysics\<close> writes each bubble back into the
  array before it goes on to the next one, and the separation force of a later bubble reads
  the array as it is then. Take two overlapping bubbles at rest, 200 apart: the first is
  pushed away by the second and moves; the push on the second is then computed from the
  first bubble's new position, and the velocity it ends with is not the one that the
  positions before the frame give.
\<close>

theorem separation_reads_updated_position:
  "vx (bubbles (updatePhysics defaultProps exampleEnv 0 0 exampleSim) ! 1)
     = 59809947760887 / 67600676000000 \<and>
   vx (snapshotBubbles defaultProps exampleEnv 0 0 exampleSim ! 1) = 2298053343 / 2600026000 \<and>
   bubbles (updatePhysics defaultProps exampleEnv 0 0 exampleSim)
     \<noteq> snapshotBubbles defaultProps exampleEnv 0 0 exampleSim"
  unfolding example_inplace example_snapshot by (simp add: exampleBubble_def)

text \<open>
  C1, amended. In a frame the attraction target and the balancing force are computed once,
  from the positions of all bubbles before the frame. The forces on bubble \<open>i\<close> are
  computed from its own position and velocity before the frame and, for the separation,
  from the array in which the bubbles before \<open>i\<close> already have their position of the end
  of the frame and the bubbles after \<open>i\<close> still have their position of before the frame.
  The flow field, the coverage bias and the home tether read no other bubble.
\<close>

theorem updatePhysics_forces_read:
  assumes "i < length (bubbles s)"
  shows "let bs = bubbles s;
             bs' = bubbles (updatePhysics P E t now s);
             seen = take i bs' @ drop i bs;
             target = lowestOccupancyTarget s now;
             bal = balance (width s) (height s) bs
         in length bs' = length bs \<and> seen ! i = bs ! i \<and>
            bs' ! i = moveBubble (width s) (height s) (forces P E t target bal seen i) (bs ! i) \<and>
            forces P E t target bal seen i =
              (fst (flowForce P E t (bs ! i)) + fst (separation seen i)
                 + fst (coverage target (bs ! i)) + fst bal + fst (tether (bs ! i)),
               snd (flowForce P E t (bs ! i)) + snd (separation seen i)
                 + snd (coverage target (bs ! i)) + snd bal + snd (tether (bs ! i)))"
proof -
  define bs where "bs = bubbles s"
  define target where "target = lowestOccupancyTarget s now"
  define bal where "bal = balance (width s) (height s) bs"
  define bs' where "bs' = partialUpdate P E t (width s) (height s) target bal (length bs) bs"
  define seen where "seen = take i bs' @ drop i bs"
  have i: "i < length bs" using assms by (simp add: bs_def)
  have eq: "bubbles (updatePhysics P E t now s) = bs'"
    by (simp add: updatePhysics_bubbles bs'_def bs_def target_def bal_def)
  have len: "length bs' = length bs" by (simp add: bs'_def partialUpdate_length)
  have own: "seen ! i = bs ! i" using i len by (simp add: seen_def nth_append)
  have mv: "bs' ! i = moveBubble (width s) (height s) (forces P E t target bal seen i) (bs ! i)"
    unfolding bs'_def seen_def using i by (rule partialUpdate_final)
  have fr: "forces P E t target bal seen i =
      (fst (flowForce P E t (bs ! i)) + fst (separation seen i)
         + fst (coverage target (bs ! i)) + fst bal + fst (tether (bs ! i)),
       snd (flowForce P E t (bs ! i)) + snd (separation seen i)
         + snd (coverage target (bs ! i)) + snd bal + snd (tether (bs ! i)))"
    by (simp add: forces_def Let_def own)
  show ?thesis
    unfolding Let_def eq bs_def[symmetric] target_def[symmetric] bal_def[symmetric]
      seen_def[symmetric]
    using len own mv fr by simp
qed

theorem updatePhysics_forces_read_witness:
  "1 < length (bubbles exampleSim) \<and>
   take 1 (bubbles (updatePhysics defaultProps exampleEnv 0 0 exampleSim))
       @ drop 1 (bubbles exampleSim)
     = [(exampleBubble 400)\<lparr>xpos := 208074434651 / 520005200, ypos := 540,
          vx := 72354651 / 520005200, vy := 0\<rparr>, exampleBubble 600] \<and>
   bubbles (updatePhysics defaultProps exampleEnv 0 0 exampleSim) ! 1
     = moveBubble 1000 1000
         (forces defaultProps exampleEnv 0 (500, 540) (0, - 0.006)
            [(exampleBubble 400)\<lparr>xpos := 208074434651 / 520005200, ypos := 540,
               vx := 72354651 / 520005200, vy := 0\<rparr>, exampleBubble 600] 1)
         (exampleBubble 600)"
  using updatePhysics_forces_read[of 1 exampleSim defaultProps exampleEnv 0 0]
  unfolding Let_def example_inplace exampleSim_fields example_balance
  by simp

subsection \<open>Speed after the integration\<close>

text \<open>The error of \<open>fl (fl q * 4)\<close>.\<close>

lemma rescale_error:
  assumes "\<bar>q\<bar> \<le> 2"
  shows "\<bar>fl (fl q * 4) - 4 * q\<bar> \<le> 21 / 2 ^ 53"
proof -
  define r where "r = fl q"
  have e1: "\<bar>r - q\<bar> \<le> \<bar>q\<bar> / 2 ^ 53 + 1 / 2 ^ 60"
    using fl_error[of q] pow2_tiny(1) unfolding r_def pow2_small by simp
  then have rb: "\<bar>r\<bar> \<le> 3" using assms by (simp add: abs_le_iff) linarith
  have e2: "\<bar>fl (r * 4) - r * 4\<bar> \<le> \<bar>r * 4\<bar> / 2 ^ 53 + 1 / 2 ^ 60"
    using fl_error[of "r * 4"] pow2_tiny(1) unfolding pow2_small by simp
  have "fl (r * 4) - 4 * q = (fl (r * 4) - r * 4) + 4 * (r - q)" by (simp add: algebra_simps)
  then have "\<bar>fl (r * 4) - 4 * q\<bar> \<le> \<bar>fl (r * 4) - r * 4\<bar> + \<bar>4 * (r - q)\<bar>"
    by (simp only: abs_triangle_ineq)
  also have "\<bar>4 * (r - q)\<bar> = 4 * \<bar>r - q\<bar>" by (simp only: abs_mult abs_numeral)
  finally have "\<bar>fl (r * 4) - 4 * q\<bar> \<le> \<bar>fl (r * 4) - r * 4\<bar> + 4 * \<bar>r - q\<bar>" .
  also have "\<dots> \<le> (12 / 2 ^ 53 + 1 / 2 ^ 60) + 4 * (2 / 2 ^ 53 + 1 / 2 ^ 60)"
    using e1 e2 rb assms by (simp add: abs_mult)
  also have "\<dots> \<le> 21 / 2 ^ 53" by simp
  finally show ?thesis unfolding r_def .
qed

text \<open>A bounce does not raise a component of the velocity, up to the smallest double.\<close>

lemma bounce_bound:
  assumes "\<bar>z\<bar> = \<bar>y\<bar>"
  shows "\<bar>fl (z * fl 0.85)\<bar> \<le> \<bar>y\<bar> + pow2 (- 1075)"
proof -
  define c where "c = fl 0.85"
  have "\<bar>c - 0.85\<bar> \<le> 0.85 / 2 ^ 53 + 1 / 2 ^ 60"
    using fl_error[of "0.85"] pow2_tiny(1) unfolding c_def pow2_small by simp
  then have c: "\<bar>c\<bar> \<le> 0.86"
    using abs_near[of c "0.85" "0.85 / 2 ^ 53 + 1 / 2 ^ 60"] by simp
  have "\<bar>z * c\<bar> = \<bar>y\<bar> * \<bar>c\<bar>" by (simp add: abs_mult assms)
  also have "\<dots> \<le> \<bar>y\<bar> * 0.86" by (rule mult_left_mono[OF c]) simp
  finally have zc: "\<bar>z * c\<bar> \<le> \<bar>y\<bar> * 0.86" .
  have "\<bar>fl (z * c) - z * c\<bar> \<le> \<bar>z * c\<bar> / 2 ^ 53 + pow2 (- 1075)"
    using fl_error[of "z * c"] unfolding pow2_small by simp
  then have "\<bar>fl (z * c)\<bar> \<le> \<bar>z * c\<bar> + \<bar>z * c\<bar> / 2 ^ 53 + pow2 (- 1075)" by linarith
  also have "\<dots> \<le> \<bar>y\<bar> * 0.86 + \<bar>y\<bar> * 0.86 / 2 ^ 53 + pow2 (- 1075)"
    using zc by (simp add: divide_right_mono add_mono)
  also have "\<dots> \<le> \<bar>y\<bar> + pow2 (- 1075)" by simp
  finally show ?thesis unfolding c_def .
qed

lemma bounces_bound:
  "\<bar>if q then fl (- \<bar>if p then fl (\<bar>v\<bar> * fl 0.85) else v\<bar> * fl 0.85)
    else (if p then fl (\<bar>v\<bar> * fl 0.85) else v)\<bar> \<le> \<bar>v\<bar> + 2 * pow2 (- 1075)"
proof -
  define v3 where "v3 = (if p then fl (\<bar>v\<bar> * fl 0.85) else v)"
  have a: "\<bar>v3\<bar> \<le> \<bar>v\<bar> + pow2 (- 1075)"
    using bounce_bound[of "\<bar>v\<bar>" v] pow2_tiny(3) by (simp add: v3_def)
  have "\<bar>if q then fl (- \<bar>v3\<bar> * fl 0.85) else v3\<bar> \<le> \<bar>v3\<bar> + pow2 (- 1075)"
    using bounce_bound[of "- \<bar>v3\<bar>" v3] pow2_tiny(3) by simp
  then show ?thesis using a unfolding v3_def by linarith
qed

text \<open>The limit on the speed, in doubles.\<close>

lemma clamp_bound:
  fixes a c :: real
  assumes acc: "hypotAccurate mathHypot"
  defines "vel \<equiv> mathHypot a c"
  shows "hypot (if vel > maxVel then fl (fl (a / vel) * maxVel) else a)
               (if vel > maxVel then fl (fl (c / vel) * maxVel) else c) \<le> 4 + 1 / 2 ^ 44"
proof -
  define h where "h = hypot a c"
  define t where "t = pow2 (- 1074)"
  have t: "0 < t" "t \<le> 1 / 2 ^ 60" using pow2_tiny by (simp_all add: t_def)
  have "\<bar>vel - h\<bar> \<le> h / 2 ^ 48 + t"
    using acc unfolding hypotAccurate_def vel_def h_def t_def pow2_small by simp
  then have lo: "h * (1 - 1 / 2 ^ 48) \<le> vel + t" by (simp add: abs_le_iff algebra_simps)
  show ?thesis
  proof (cases "vel > maxVel")
    case False
    then have "vel \<le> 4" by (simp add: maxVel_def)
    then have "h * (1 - 1 / 2 ^ 48) \<le> 4 + 1 / 2 ^ 60" using lo t by linarith
    also have "\<dots> \<le> (4 + 1 / 2 ^ 44) * (1 - 1 / 2 ^ 48)" by simp
    finally have "h \<le> 4 + 1 / 2 ^ 44" by simp
    then show ?thesis using False by (simp add: h_def)
  next
    case True
    then have v4: "4 < vel" by (simp add: maxVel_def)
    have "vel + t \<le> vel * ((1 + 1 / 2 ^ 47) * (1 - 1 / 2 ^ 48))"
      using v4 t by (simp add: algebra_simps)
    then have "h * (1 - 1 / 2 ^ 48) \<le> (vel * (1 + 1 / 2 ^ 47)) * (1 - 1 / 2 ^ 48)"
      using lo by (simp add: algebra_simps)
    then have hv: "h \<le> vel * (1 + 1 / 2 ^ 47)" by simp
    have ab: "\<bar>a\<bar> \<le> h" "\<bar>c\<bar> \<le> h" unfolding h_def by (rule abs_le_hypot)+
    have q: "\<bar>a / vel\<bar> \<le> 2" "\<bar>c / vel\<bar> \<le> 2"
      using ab hv v4 by (simp_all add: abs_le_iff field_simps)
    define ea where "ea = fl (fl (a / vel) * 4) - 4 * (a / vel)"
    define ec where "ec = fl (fl (c / vel) * 4) - 4 * (c / vel)"
    have e: "\<bar>ea\<bar> \<le> 21 / 2 ^ 53" "\<bar>ec\<bar> \<le> 21 / 2 ^ 53"
      unfolding ea_def ec_def by (rule rescale_error[OF q(1)], rule rescale_error[OF q(2)])
    have "hypot (fl (fl (a / vel) * 4)) (fl (fl (c / vel) * 4))
        = hypot (4 / vel * a + ea) (4 / vel * c + ec)"
      by (simp add: ea_def ec_def)
    also have "\<dots> \<le> hypot (4 / vel * a) (4 / vel * c) + hypot ea ec" by (rule hypot_triangle)
    also have "hypot (4 / vel * a) (4 / vel * c) = 4 / vel * h"
      unfolding h_def using v4 by (intro hypot_scale) simp
    also have "hypot ea ec \<le> \<bar>ea\<bar> + \<bar>ec\<bar>" by (rule hypot_le_abs)
    also have "4 / vel * h \<le> 4 * (1 + 1 / 2 ^ 47)"
      using hv v4 by (simp add: field_simps)
    finally have "hypot (fl (fl (a / vel) * 4)) (fl (fl (c / vel) * 4))
        \<le> 4 * (1 + 1 / 2 ^ 47) + (\<bar>ea\<bar> + \<bar>ec\<bar>)" by simp
    also have "\<dots> \<le> 4 + 1 / 2 ^ 44" using e by simp
    finally show ?thesis using True by (simp add: maxVel_def)
  qed
qed

text \<open>
  The bubble that moves with the velocity \<open>(1.25, 3.5)\<close> takes the force \<open>(0.25, 0.625)\<close>.
  The steps of the integration, in doubles.
\<close>

lemma cruising_sum: "fl (1.25 + 0.25) = 1.5" "fl (3.5 + 0.625) = 4.125"
  using fl_exact[of "3 / 2" 3 "- 1"] fl_exact[of "33 / 8" 33 "- 3"] by (simp_all add: pow2_def)

lemma cruising_damped:
  "fl (1.5 * (8376695306909123 / 9007199254740992)) = 3141260740090921 / 2251799813685248"
  "fl (4.125 * (8376695306909123 / 9007199254740992)) = 8638467035250033 / 2251799813685248"
proof -
  show "fl (1.5 * (8376695306909123 / 9007199254740992)) = 3141260740090921 / 2251799813685248"
    by (rule fl_val[of 0 _ 6282521480181842]) (simp_all add: pow2_def)
  show "fl (4.125 * (8376695306909123 / 9007199254740992)) = 8638467035250033 / 2251799813685248"
    by (rule fl_val[of 1 _ 8638467035250033]) (simp_all add: pow2_def)
qed

lemma cruising_vel:
  "roundedHypot (3141260740090921 / 2251799813685248) (8638467035250033 / 2251799813685248)
     = 2297969644005579 / 562949953421312"
  unfolding roundedHypot_def
  by (rule fl_hypot_val[of 4595939288011158 2]) (simp_all add: pow2_def)

lemma cruising_quotient:
  "fl (3141260740090921 / 2251799813685248 / (2297969644005579 / 562949953421312))
     = 6156295726294935 / 18014398509481984"
  "fl (8638467035250033 / 2251799813685248 / (2297969644005579 / 562949953421312))
     = 8464906623655537 / 9007199254740992"
proof -
  show "fl (3141260740090921 / 2251799813685248 / (2297969644005579 / 562949953421312))
     = 6156295726294935 / 18014398509481984"
    by (rule fl_val[of "- 2" _ 6156295726294935]) (simp_all add: pow2_def)
  show "fl (8638467035250033 / 2251799813685248 / (2297969644005579 / 562949953421312))
     = 8464906623655537 / 9007199254740992"
    by (rule fl_val[of "- 1" _ 8464906623655537]) (simp_all add: pow2_def)
qed

lemma cruising_rescaled:
  "fl (6156295726294935 / 18014398509481984 * 4) = 6156295726294935 / 4503599627370496"
  "fl (8464906623655537 / 9007199254740992 * 4) = 8464906623655537 / 2251799813685248"
  using fl_exact[of "6156295726294935 / 4503599627370496" 6156295726294935 "- 52"]
    fl_exact[of "8464906623655537 / 2251799813685248" 8464906623655537 "- 51"]
  by (simp_all add: pow2_def)

lemma cruising_position:
  "fl (500 + 6156295726294935 / 4503599627370496) = 1102517631548605 / 2199023255552"
  "fl (500 + 8464906623655537 / 2251799813685248) = 8862225105205309 / 17592186044416"
proof -
  show "fl (500 + 6156295726294935 / 4503599627370496) = 1102517631548605 / 2199023255552"
    by (rule fl_val[of 8 _ 8820141052388840]) (simp_all add: pow2_def)
  show "fl (500 + 8464906623655537 / 2251799813685248) = 8862225105205309 / 17592186044416"
    by (rule fl_val[of 8 _ 8862225105205309]) (simp_all add: pow2_def)
qed

lemma cruising_pad:
  "fl (100 * (5404319552844595 / 9007199254740992)) = 60" "fl (1000 - 60) = 940"
proof -
  show "fl (100 * (5404319552844595 / 9007199254740992)) = 60"
    by (rule fl_val[of 5 _ 8444249301319680]) (simp_all add: pow2_def)
  show "fl (1000 - 60) = 940"
    by (rule fl_val[of 9 _ 8268327440875520]) (simp_all add: pow2_def)
qed

text \<open>
  The velocity after the damping is \<open>(1.395, 3.83625)\<close>, of magnitude \<open>4.082014093863469\<close>,
  above the limit; no edge is reached.
\<close>

lemma cruising_step:
  "moveBubbleDouble roundedHypot 1000 1000 (1 / 4, 5 / 8) cruisingBubble
   = cruisingBubble\<lparr>xpos := 1102517631548605 / 2199023255552,
       ypos := 8862225105205309 / 17592186044416,
       vx := 6156295726294935 / 4503599627370496,
       vy := 8464906623655537 / 2251799813685248\<rparr>"
proof -
  have c: "fl (93 / 100) = 8376695306909123 / 9007199254740992"
      "fl (3 / 5) = 5404319552844595 / 9007199254740992"
    using double_093 double_06 by simp_all
  have s: "fl (3 / 2) = 3 / 2" "fl (33 / 8) = 33 / 8" using cruising_sum by simp_all
  have d: "fl (25130085920727369 / 18014398509481984) = 3141260740090921 / 2251799813685248"
      "fl (276430945128001059 / 72057594037927936) = 8638467035250033 / 2251799813685248"
    using cruising_damped by simp_all
  have q: "fl (3141260740090921 / 9191878576022316) = 6156295726294935 / 18014398509481984"
      "fl (2879489011750011 / 3063959525340772) = 8464906623655537 / 9007199254740992"
    using cruising_quotient by simp_all
  have r: "fl (6156295726294935 / 4503599627370496) = 6156295726294935 / 4503599627370496"
      "fl (8464906623655537 / 2251799813685248) = 8464906623655537 / 2251799813685248"
    using cruising_rescaled by simp_all
  have x: "fl (2257956109411542935 / 4503599627370496) = 1102517631548605 / 2199023255552"
      "fl (1134364813466279537 / 2251799813685248) = 8862225105205309 / 17592186044416"
    using cruising_position by simp_all
  have p: "fl (135107988821114875 / 2251799813685248) = 60" "fl 940 = 940"
    using cruising_pad by simp_all
  show ?thesis
    by (simp add: moveBubbleDouble_def cruisingBubble_def exampleBubble_def Let_def maxVel_def
        c s d cruising_vel q r x p)
qed

lemma cruising_speed:
  "4 < hypot (6156295726294935 / 4503599627370496) (8464906623655537 / 2251799813685248)"
  by (rule hypot_between(1)[where hi = 5]) simp_all

lemma cruising_speed_rounded:
  "roundedHypot (6156295726294935 / 4503599627370496) (8464906623655537 / 2251799813685248)
     = 4 + pow2 (- 50)"
  unfolding roundedHypot_def
  by (rule fl_hypot_val[of 4503599627370497 2]) (simp_all add: pow2_def)

text \<open>
  C4, as the claim states it, fails: the limit on the speed divides the velocity by its
  magnitude and multiplies it by 4, and each of these operations rounds. A bubble in the
  middle of a canvas of 1000 by 1000 that moves with the velocity \<open>(1.25, 3.5)\<close>, of
  magnitude 3.72, and takes the force \<open>(0.25, 0.625)\<close> has the velocity \<open>(1.395, 3.83625)\<close>
  after the damping, of magnitude \<open>4.082014093863469\<close>, which is above the limit, and
  leaves the step with the velocity \<open>(1.3669722523468175, 3.759173693953749)\<close>. The
  magnitude of that velocity is above 4, and so is the double nearest to it,
  \<open>4.000000000000001\<close>, which is \<open>4 + 2^-50\<close>.
\<close>

theorem speed_above_limit_in_doubles:
  "hypot (vx cruisingBubble) (vy cruisingBubble) < maxVel \<and>
   vx (moveBubbleDouble roundedHypot 1000 1000 (0.25, 0.625) cruisingBubble)
     = 6156295726294935 / 4503599627370496 \<and>
   vy (moveBubbleDouble roundedHypot 1000 1000 (0.25, 0.625) cruisingBubble)
     = 8464906623655537 / 2251799813685248 \<and>
   maxVel < hypot (vx (moveBubbleDouble roundedHypot 1000 1000 (0.25, 0.625) cruisingBubble))
                  (vy (moveBubbleDouble roundedHypot 1000 1000 (0.25, 0.625) cruisingBubble)) \<and>
   roundedHypot (vx (moveBubbleDouble roundedHypot 1000 1000 (0.25, 0.625) cruisingBubble))
                (vy (moveBubbleDouble roundedHypot 1000 1000 (0.25, 0.625) cruisingBubble))
     = maxVel + pow2 (- 50)"
proof -
  have e: "moveBubbleDouble roundedHypot 1000 1000 (0.25, 0.625) cruisingBubble
      = moveBubbleDouble roundedHypot 1000 1000 (1 / 4, 5 / 8) cruisingBubble" by simp
  have "hypot (5 / 4) (7 / 2) < 4"
    by (rule hypot_between(2)[where lo = 0]) simp_all
  then have b: "hypot (vx cruisingBubble) (vy cruisingBubble) < maxVel"
    by (simp add: cruisingBubble_def exampleBubble_def maxVel_def)
  show ?thesis
    unfolding e cruising_step
    using b cruising_speed
    by (simp add: cruising_speed_rounded maxVel_def)
qed

text \<open>
  C4, amended. Whatever the bubble and the combined force, as long as the numbers that go
  into the step are in the range in which no operation of the step overflows, and with a
  \<open>Math.hypot\<close> that is accurate to \<open>2^-48\<close>: after the damping, the limit on the speed,
  the integration of the position and the bounces, the magnitude of the velocity is at most
  \<open>4 + 2^-40\<close>, which is the limit of 4 up to the rounding of the doubles.
\<close>

theorem speed_capped_in_doubles:
  assumes "hypotAccurate mathHypot"
    and "inRange (vx b + fst f)" "inRange (vy b + snd f)"
    and "inRange (xpos b)" "inRange (ypos b)" "inRange (rad b)" "inRange W" "inRange H"
  shows "hypot (vx (moveBubbleDouble mathHypot W H f b)) (vy (moveBubbleDouble mathHypot W H f b))
           \<le> maxVel + pow2 (- 40)"
proof -
  define vx1 where "vx1 = fl (fl (vx b + fst f) * fl 0.93)"
  define vy1 where "vy1 = fl (fl (vy b + snd f) * fl 0.93)"
  define vel where "vel = mathHypot vx1 vy1"
  define vx2 where "vx2 = (if vel > maxVel then fl (fl (vx1 / vel) * maxVel) else vx1)"
  define vy2 where "vy2 = (if vel > maxVel then fl (fl (vy1 / vel) * maxVel) else vy1)"
  define t where "t = 2 * pow2 (- 1075)"
  have t: "0 \<le> t" "t \<le> 1 / 2 ^ 59" using pow2_tiny by (simp_all add: t_def)
  have c: "hypot vx2 vy2 \<le> 4 + 1 / 2 ^ 44"
    unfolding vx2_def vy2_def vel_def by (rule clamp_bound[OF assms(1)])
  have "\<bar>vx (moveBubbleDouble mathHypot W H f b)\<bar> \<le> \<bar>vx2\<bar> + t"
       "\<bar>vy (moveBubbleDouble mathHypot W H f b)\<bar> \<le> \<bar>vy2\<bar> + t"
    unfolding moveBubbleDouble_def Let_def split_def vx1_def[symmetric] vy1_def[symmetric]
      vel_def[symmetric] vx2_def[symmetric] vy2_def[symmetric] t_def
    using bounces_bound[of _ _ vx2] bounces_bound[of _ _ vy2]
    by (simp_all add: if_distrib[of snd] cong: if_cong)
  then have "\<bar>vx (moveBubbleDouble mathHypot W H f b)\<bar> \<le> \<bar>\<bar>vx2\<bar> + t\<bar>"
       "\<bar>vy (moveBubbleDouble mathHypot W H f b)\<bar> \<le> \<bar>\<bar>vy2\<bar> + t\<bar>"
    by linarith+
  then have "hypot (vx (moveBubbleDouble mathHypot W H f b)) (vy (moveBubbleDouble mathHypot W H f b))
      \<le> hypot (\<bar>vx2\<bar> + t) (\<bar>vy2\<bar> + t)" by (rule hypot_mono)
  also have "\<dots> \<le> hypot \<bar>vx2\<bar> \<bar>vy2\<bar> + hypot t t" by (rule hypot_triangle)
  also have "hypot \<bar>vx2\<bar> \<bar>vy2\<bar> = hypot vx2 vy2" by (simp add: hypot_def)
  also have "hypot t t \<le> \<bar>t\<bar> + \<bar>t\<bar>" by (rule hypot_le_abs)
  finally have "hypot (vx (moveBubbleDouble mathHypot W H f b)) (vy (moveBubbleDouble mathHypot W H f b))
      \<le> hypot vx2 vy2 + (\<bar>t\<bar> + \<bar>t\<bar>)" by simp
  also have "\<dots> \<le> 4 + 1 / 2 ^ 44 + 2 / 2 ^ 59" using c t by simp
  also have "\<dots> \<le> maxVel + pow2 (- 40)" by (simp add: maxVel_def pow2_small)
  finally show ?thesis .
qed

theorem speed_capped_in_doubles_witness:
  "hypotAccurate roundedHypot \<and>
   inRange (vx cruisingBubble + fst (0.25 :: real, 0.625 :: real)) \<and>
   inRange (vy cruisingBubble + snd (0.25 :: real, 0.625 :: real)) \<and>
   inRange (xpos cruisingBubble) \<and> inRange (ypos cruisingBubble) \<and>
   inRange (rad cruisingBubble) \<and> inRange 1000 \<and>
   hypot (vx (moveBubbleDouble roundedHypot 1000 1000 (0.25, 0.625) cruisingBubble))
         (vy (moveBubbleDouble roundedHypot 1000 1000 (0.25, 0.625) cruisingBubble))
     \<le> maxVel + pow2 (- 40)"
  using speed_capped_in_doubles[of roundedHypot cruisingBubble "(0.25, 0.625)" 1000 1000]
    hypotAccurate_rounded
  by (simp add: inRange_def cruisingBubble_def exampleBubble_def pow2_def)

subsection \<open>Radius and position after a frame\<close>

text \<open>
  The edge tests put the position back on the bound that it has passed, in ideal arithmetic
  (\<open>moveBubble_pos\<close>) and in doubles alike, where the bounds are the doubles that the code
  computes for \<open>0.6 r\<close> and for \<open>dimension - 0.6 r\<close>.
\<close>

lemma moveBubbleDouble_pos:
  "(fl (rad b * fl 0.6) \<le> fl (W - fl (rad b * fl 0.6)) \<longrightarrow>
      fl (rad b * fl 0.6) \<le> xpos (moveBubbleDouble mathHypot W H f b) \<and>
      xpos (moveBubbleDouble mathHypot W H f b) \<le> fl (W - fl (rad b * fl 0.6))) \<and>
   (fl (rad b * fl 0.6) \<le> fl (H - fl (rad b * fl 0.6)) \<longrightarrow>
      fl (rad b * fl 0.6) \<le> ypos (moveBubbleDouble mathHypot W H f b) \<and>
      ypos (moveBubbleDouble mathHypot W H f b) \<le> fl (H - fl (rad b * fl 0.6)))"
  unfolding moveBubbleDouble_def Let_def by (auto simp: split_def)

text \<open>
  C3. After \<open>updatePhysics\<close>, for every bubble: the radius that \<open>draw\<close> paints lies within
  \<open>[radiusMin, radiusMax]\<close>, for properties in which these are the ends of an interval, that
  is with \<open>radiusMin\<close> not above \<open>radiusMax\<close> (the upper bound holds in any case); the
  radius \<open>r\<close> of the bubble is the one it had; and its position lies within
  \<open>[0.6 r, dimension - 0.6 r]\<close> on the x axis (the width) and on the y axis (the height),
  on each provided \<open>0.6 r\<close> does not exceed \<open>dimension - 0.6 r\<close>.
\<close>

theorem bounds_after_update:
  assumes "i < length (bubbles s)"
  shows "let b = bubbles (updatePhysics P E t now s) ! i
         in radiusY (drawBubble P E tD b) \<le> radiusMax P \<and>
            (radiusMin P \<le> radiusMax P \<longrightarrow> radiusMin P \<le> radiusY (drawBubble P E tD b)) \<and>
            rad b = rad (bubbles s ! i) \<and>
            (rad b * 0.6 \<le> width s - rad b * 0.6 \<longrightarrow>
               rad b * 0.6 \<le> xpos b \<and> xpos b \<le> width s - rad b * 0.6) \<and>
            (rad b * 0.6 \<le> height s - rad b * 0.6 \<longrightarrow>
               rad b * 0.6 \<le> ypos b \<and> ypos b \<le> height s - rad b * 0.6)"
proof -
  obtain f where f: "bubbles (updatePhysics P E t now s) ! i =
      moveBubble (width s) (height s) f (bubbles s ! i)"
    unfolding updatePhysics_bubbles using partialUpdate_final[OF assms] by blast
  have ry: "radiusY (drawBubble P E tD (moveBubble (width s) (height s) f (bubbles s ! i)))
      = rNow P tD (bubbles s ! i)"
    by (simp add: drawBubble_def rNow_moveBubble)
  show ?thesis
    unfolding Let_def f ry moveBubble_rad
    using rNow_range[of P tD "bubbles s ! i"]
      moveBubble_pos[of "bubbles s ! i" "width s" "height s" f]
    by simp
qed

theorem bounds_after_update_witness:
  "0 < length (bubbles exampleSim) \<and>
   radiusMin defaultProps \<le> radiusMax defaultProps \<and>
   rad (bubbles exampleSim ! 0) * 0.6 \<le> width exampleSim - rad (bubbles exampleSim ! 0) * 0.6 \<and>
   rad (bubbles exampleSim ! 0) * 0.6 \<le> height exampleSim - rad (bubbles exampleSim ! 0) * 0.6 \<and>
   rad (bubbles (updatePhysics defaultProps exampleEnv 0 0 exampleSim) ! 0) = 200 \<and>
   radiusY (drawBubble defaultProps exampleEnv 0
      (bubbles (updatePhysics defaultProps exampleEnv 0 0 exampleSim) ! 0)) = 200 \<and>
   xpos (bubbles (updatePhysics defaultProps exampleEnv 0 0 exampleSim) ! 0)
     = 208074434651 / 520005200 \<and>
   ypos (bubbles (updatePhysics defaultProps exampleEnv 0 0 exampleSim) ! 0) = 540 \<and>
   120 \<le> (208074434651 / 520005200 :: real) \<and> (208074434651 / 520005200 :: real) \<le> 880"
  using bounds_after_update[of 0 exampleSim defaultProps exampleEnv 0 0 0]
  unfolding example_inplace exampleSim_fields
  by (simp add: exampleBubble_def defaultProps_def drawBubble_def rNow_def rem_def
      trunc_def Let_def)

section \<open>Properties of the placement\<close>

lemma hypot_swap: "hypot (a - b) (c - d) = hypot (b - a) (d - c)"
proof -
  have "(a - b) * (a - b) + (c - d) * (c - d) = (b - a) * (b - a) + (d - c) * (d - c)"
    by (simp add: algebra_simps)
  then show ?thesis by (simp add: hypot_def)
qed

lemma centreDistance_sym: "centreDistance b c = centreDistance c b"
  unfolding centreDistance_def by (rule hypot_swap)

lemma accepts_far:
  assumes "accepts P bs x y r" "b \<in> set bs" "xpos nb = x" "ypos nb = y" "rad nb = r"
  shows "centreDistance b nb \<ge> max ((rad b + rad nb) * 0.6) (max (minRadius P * 0.7) 120)"
  using assms by (auto simp: accepts_def list_all_iff centreDistance_def minDist_def)

text \<open>An accepted candidate keeps the pool spaced.\<close>

lemma spaced_snoc:
  assumes "spaced P bs" "accepts P bs x y r" "xpos nb = x" "ypos nb = y" "rad nb = r"
  shows "spaced P (bs @ [nb])"
  unfolding spaced_def
proof (intro allI impI)
  fix i j
  assume i: "i < length (bs @ [nb])" and j: "j < length (bs @ [nb])" and ne: "i \<noteq> j"
  let ?goal = "centreDistance ((bs @ [nb]) ! i) ((bs @ [nb]) ! j)
      \<ge> max ((rad ((bs @ [nb]) ! i) + rad ((bs @ [nb]) ! j)) * 0.6)
            (max (minRadius P * 0.7) 120)"
  consider (old) "i < length bs" "j < length bs"
    | (newj) "i < length bs" "j = length bs"
    | (newi) "i = length bs" "j < length bs"
    using i j ne by (auto simp: less_Suc_eq)
  then show ?goal
  proof cases
    case old
    then show ?thesis using assms(1) ne by (simp add: spaced_def nth_append)
  next
    case newj
    then have "bs ! i \<in> set bs" by simp
    from accepts_far[OF assms(2) this assms(3-5)] show ?thesis
      using newj by (simp add: nth_append)
  next
    case newi
    then have "bs ! j \<in> set bs" by simp
    from accepts_far[OF assms(2) this assms(3-5)] show ?thesis
      using newi by (simp add: nth_append centreDistance_sym[of nb] add.commute)
  qed
qed

lemma newBubble_place:
  "xpos (newBubble P E k n x y r) = x" "ypos (newBubble P E k n x y r) = y"
  "rad (newBubble P E k n x y r) = r"
  by (simp_all add: newBubble_def Let_def)

lemma placeLoop_unfold:
  "placeLoop P E W H bs tries k =
     (if length bs < count P \<and> tries < maxTries then
        (if accepts P bs (rand E (k + 1) (rand E k (minRadius P) (maxRadius P) * 0.6)
                            (W - rand E k (minRadius P) (maxRadius P) * 0.6))
              (rand E (k + 2) (rand E k (minRadius P) (maxRadius P) * 0.6)
                            (H - rand E k (minRadius P) (maxRadius P) * 0.6))
              (rand E k (minRadius P) (maxRadius P)) then
           (if colors P = [] then Inl TypeError
            else placeLoop P E W H
                   (bs @ [newBubble P E (k + 3) (length bs)
                     (rand E (k + 1) (rand E k (minRadius P) (maxRadius P) * 0.6)
                            (W - rand E k (minRadius P) (maxRadius P) * 0.6))
                     (rand E (k + 2) (rand E k (minRadius P) (maxRadius P) * 0.6)
                            (H - rand E k (minRadius P) (maxRadius P) * 0.6))
                     (rand E k (minRadius P) (maxRadius P))])
                   (Suc tries) (k + 16))
         else placeLoop P E W H bs (Suc tries) (k + 3))
      else Inr bs)"
  by (subst placeLoop.simps) (simp add: Let_def)

text \<open>The placement loop keeps the pool spaced and no larger than the count requested.\<close>

lemma placeLoop_inv:
  "placeLoop P E W H bs tries k = Inr out \<Longrightarrow> spaced P bs \<Longrightarrow> length bs \<le> count P
   \<Longrightarrow> spaced P out \<and> length out \<le> count P"
proof (induction P E W H bs tries k rule: placeLoop.induct)
  case (1 P E W H bs tries k)
  define r where "r = rand E k (minRadius P) (maxRadius P)"
  define x where "x = rand E (k + 1) (r * 0.6) (W - r * 0.6)"
  define y where "y = rand E (k + 2) (r * 0.6) (H - r * 0.6)"
  note unf = placeLoop_unfold[of P E W H bs tries k, folded r_def, folded x_def y_def]
  show ?case
  proof (cases "length bs < count P \<and> tries < maxTries")
    case False
    then have "out = bs" using "1.prems"(1) unf by auto
    then show ?thesis using "1.prems" by simp
  next
    case loop: True
    show ?thesis
    proof (cases "accepts P bs x y r")
      case False
      then have "placeLoop P E W H bs (Suc tries) (k + 3) = Inr out"
        using "1.prems"(1) loop unf by simp
      from "1.IH"(2)[OF loop r_def x_def y_def False this "1.prems"(2,3)] show ?thesis .
    next
      case True
      have ne: "colors P \<noteq> []"
        using "1.prems"(1) loop True unf by auto
      let ?nb = "newBubble P E (k + 3) (length bs) x y r"
      have rec: "placeLoop P E W H (bs @ [?nb]) (Suc tries) (k + 16) = Inr out"
        using "1.prems"(1) loop True ne unf by simp
      have sp: "spaced P (bs @ [?nb])"
        using spaced_snoc[OF "1.prems"(2) True] by (simp add: newBubble_place)
      have ln: "length (bs @ [?nb]) \<le> count P" using loop by simp
      from "1.IH"(1)[OF loop r_def x_def y_def True ne rec sp ln] show ?thesis .
    qed
  qed
qed

text \<open>With a palette that is not empty the placement loop ends with a pool.\<close>

lemma placeLoop_returns:
  "colors P \<noteq> [] \<Longrightarrow> \<exists>out. placeLoop P E W H bs tries k = Inr out"
proof (induction P E W H bs tries k rule: placeLoop.induct)
  case (1 P E W H bs tries k)
  define r where "r = rand E k (minRadius P) (maxRadius P)"
  define x where "x = rand E (k + 1) (r * 0.6) (W - r * 0.6)"
  define y where "y = rand E (k + 2) (r * 0.6) (H - r * 0.6)"
  note unf = placeLoop_unfold[of P E W H bs tries k, folded r_def, folded x_def y_def]
  show ?case
  proof (cases "length bs < count P \<and> tries < maxTries")
    case False
    then show ?thesis using unf by auto
  next
    case loop: True
    show ?thesis
    proof (cases "accepts P bs x y r")
      case False
      from "1.IH"(2)[OF loop r_def x_def y_def False "1.prems"] show ?thesis
        using loop False unf by simp
    next
      case True
      from "1.IH"(1)[OF loop r_def x_def y_def True "1.prems" "1.prems"] show ?thesis
        using loop True "1.prems" unf by simp
    qed
  qed
qed

subsection \<open>A placement worked out\<close>

lemma twoProps_fields:
  "count twoProps = 2" "colors twoProps = [''#646464'', ''#c80000'']"
  "minRadius twoProps = 120" "maxRadius twoProps = 460"
  by (simp_all add: twoProps_def defaultProps_def)

lemma exampleEnv_rand: "rand exampleEnv k lo hi = (if k = 17 then lo + (hi - lo) / 2 else lo)"
  by (simp add: exampleEnv_def)

lemma example_first:
  "placement twoProps exampleEnv 1000 1000 =
     placeLoop twoProps exampleEnv 1000 1000 [newBubble twoProps exampleEnv 3 0 72 72 120] 1 16"
  unfolding placement_def
  by (subst placeLoop.simps)
    (simp add: twoProps_fields exampleEnv_rand accepts_def maxTries_def Let_def)

lemma example_second:
  "placeLoop twoProps exampleEnv 1000 1000 [newBubble twoProps exampleEnv 3 0 72 72 120] 1 16 =
     placeLoop twoProps exampleEnv 1000 1000
       [newBubble twoProps exampleEnv 3 0 72 72 120, newBubble twoProps exampleEnv 19 1 500 72 120]
       2 32"
  by (subst placeLoop.simps)
    (simp add: twoProps_fields exampleEnv_rand accepts_def maxTries_def Let_def newBubble_place
      hypot_0_right minDist_def)

lemma example_full: "placeLoop twoProps exampleEnv 1000 1000 [a, b] 2 32 = Inr [a, b]"
  by (subst placeLoop.simps) (simp add: twoProps_fields)

lemma example_placement:
  "placement twoProps exampleEnv 1000 1000 =
     Inr [newBubble twoProps exampleEnv 3 0 72 72 120, newBubble twoProps exampleEnv 19 1 500 72 120]"
  by (simp only: example_first example_second example_full)

text \<open>
  C5. When the placement loop has finished, the pool holds at most \<open>count\<close> bubbles, and
  the centres of every two distinct bubbles of it are at least
  \<open>max((r_i + r_j) * 0.6, minDistanceFloor)\<close> apart, with
  \<open>minDistanceFloor = max(minRadius * 0.7, 120)\<close>. The loop finishes whenever the palette
  is not empty.
\<close>

theorem placement_spaced:
  "(colors P \<noteq> [] \<longrightarrow> (\<exists>bs. placement P E W H = Inr bs)) \<and>
   (\<forall>bs. placement P E W H = Inr bs \<longrightarrow>
      length bs \<le> count P \<and>
      (\<forall>i < length bs. \<forall>j < length bs. i \<noteq> j \<longrightarrow>
         hypot (xpos (bs ! i) - xpos (bs ! j)) (ypos (bs ! i) - ypos (bs ! j))
           \<ge> max ((rad (bs ! i) + rad (bs ! j)) * 0.6) (max (minRadius P * 0.7) 120)))"
proof -
  have "spaced P []" by (simp add: spaced_def)
  then have "\<forall>bs. placement P E W H = Inr bs \<longrightarrow> spaced P bs \<and> length bs \<le> count P"
    unfolding placement_def using placeLoop_inv[of P E W H "[]" 0 0] by simp
  then show ?thesis
    using placeLoop_returns[of P E W H "[]" 0 0]
    unfolding placement_def spaced_def centreDistance_def by blast
qed

theorem placement_spaced_witness:
  "colors twoProps \<noteq> [] \<and>
   (\<exists>bs. placement twoProps exampleEnv 1000 1000 = Inr bs \<and>
      map (\<lambda>b. (xpos b, ypos b, rad b)) bs = [(72, 72, 120), (500, 72, 120)] \<and>
      length bs \<le> count twoProps \<and> (0 :: nat) < length bs \<and> (1 :: nat) < length bs \<and>
      (0 :: nat) \<noteq> 1 \<and>
      hypot (xpos (bs ! 0) - xpos (bs ! 1)) (ypos (bs ! 0) - ypos (bs ! 1)) = 428 \<and>
      max ((rad (bs ! 0) + rad (bs ! 1)) * 0.6) (max (minRadius twoProps * 0.7) 120) = 144 \<and>
      hypot (xpos (bs ! 0) - xpos (bs ! 1)) (ypos (bs ! 0) - ypos (bs ! 1))
        \<ge> max ((rad (bs ! 0) + rad (bs ! 1)) * 0.6) (max (minRadius twoProps * 0.7) 120))"
  using placement_spaced[of twoProps exampleEnv 1000 1000]
  unfolding example_placement
  by (simp add: newBubble_place twoProps_fields hypot_0_right)

section \<open>Properties of the likes endpoint\<close>

lemma example_parse:
  "parseSlug exampleRequest = Inr ''post''" "getClientIp exampleRequest = ''10.0.0.1''"
  by (simp_all add: parseSlug_def getClientIp_def exampleRequest_def trim_def isWhite_def
      MAX_SLUG_LENGTH_def Let_def)

text \<open>
  C10, as the claim states it, fails: when the like event is already there and the read of
  the count throws, the handler answers 500, not 429.
\<close>

theorem rate_limited_count_read_fails:
  "(''post'', ''10.0.0.1'', 3) \<in> events likedDb \<and>
   status (reply (POST (\<lambda>c. c \<noteq> SelectCountLimited) 3 exampleRequest likedDb)) = 500"
  by (simp add: POST_def example_parse likeTransaction_def likedDb_def respond_def Let_def)

text \<open>
  C10, amended. The increment of the count and the insertion of the like event are atomic:
  the stored state after the handler is the one before, or the one with both writes, and
  the latter only with the answer 200. If a call fails once the rate limit has been passed
  (the start of the transaction, one of its statements or the commit), the handler attempts
  a rollback (a failure of the rollback itself is ignored) and then releases the connection,
  these being its last two calls; it answers 500 and the stored state is unchanged; the
  connection is released with no open transaction when the rollback succeeded. When a like
  event for the same slug, address and day is already there, the handler starts no
  transaction and writes nothing; it answers 429 with the current count when the read of
  the count succeeds, and 500 when that read fails.
\<close>

theorem POST_atomic:
  assumes "parseSlug req = Inr slug"
  shows "let out = POST ok today req d;
             ip = getClientIp req;
             both = upsertLikes slug (insertEvent slug ip today d)
         in (stored out = d \<or> (stored out = both \<and> status (reply out) = 200)) \<and>
            (ok EnsureTable \<and> ok GetConnection \<and> ok SelectLimited \<and>
             (slug, ip, today) \<notin> events d \<longrightarrow>
               (ok Begin \<and> ok InsertEvent \<and> ok UpsertLikes \<and> ok SelectCount \<and> ok Commit \<longrightarrow>
                  reply out = respond 200 (CountBody (countOf both slug)) \<and>
                  stored out = both \<and> openTxn out = None \<and> Rollback \<notin> set (calls out)) \<and>
               (\<not> (ok Begin \<and> ok InsertEvent \<and> ok UpsertLikes \<and> ok SelectCount \<and> ok Commit) \<longrightarrow>
                  status (reply out) = 500 \<and> stored out = d \<and>
                  drop (length (calls out) - 2) (calls out) = [Rollback, Release] \<and>
                  (ok Rollback \<longrightarrow> openTxn out = None))) \<and>
            (ok EnsureTable \<and> ok GetConnection \<and> ok SelectLimited \<and>
             (slug, ip, today) \<in> events d \<longrightarrow>
               stored out = d \<and> openTxn out = None \<and>
               Begin \<notin> set (calls out) \<and> InsertEvent \<notin> set (calls out) \<and>
               UpsertLikes \<notin> set (calls out) \<and> Commit \<notin> set (calls out) \<and>
               (ok SelectCountLimited \<longrightarrow>
                  reply out = respond RATE_LIMIT_STATUS (RateLimitedBody (countOf d slug))) \<and>
               (\<not> ok SelectCountLimited \<longrightarrow> status (reply out) = 500))"
  using assms
  by (auto simp: POST_def likeTransaction_def Let_def respond_def RATE_LIMIT_STATUS_def)

theorem POST_atomic_witness:
  "parseSlug exampleRequest = Inr ''post'' \<and> getClientIp exampleRequest = ''10.0.0.1'' \<and>
   (''post'', ''10.0.0.1'', 3) \<notin> events freshDb \<and>
   (''post'', ''10.0.0.1'', 3) \<in> events likedDb \<and>
   reply (POST (\<lambda>c. c \<noteq> Commit) 3 exampleRequest freshDb)
     = respond 500 (ErrorBody ''Failed to save like'') \<and>
   stored (POST (\<lambda>c. c \<noteq> Commit) 3 exampleRequest freshDb) = freshDb \<and>
   calls (POST (\<lambda>c. c \<noteq> Commit) 3 exampleRequest freshDb)
     = [EnsureTable, GetConnection, SelectLimited, Begin, InsertEvent, UpsertLikes, SelectCount,
        Commit, Rollback, Release] \<and>
   openTxn (POST (\<lambda>c. c \<noteq> Commit) 3 exampleRequest freshDb) = None \<and>
   reply (POST (\<lambda>c. True) 3 exampleRequest freshDb) = respond 200 (CountBody 8) \<and>
   stored (POST (\<lambda>c. True) 3 exampleRequest freshDb)
     = upsertLikes ''post'' (insertEvent ''post'' ''10.0.0.1'' 3 freshDb) \<and>
   reply (POST (\<lambda>c. True) 3 exampleRequest likedDb) = respond 429 (RateLimitedBody 7) \<and>
   stored (POST (\<lambda>c. True) 3 exampleRequest likedDb) = likedDb \<and>
   calls (POST (\<lambda>c. True) 3 exampleRequest likedDb)
     = [EnsureTable, GetConnection, SelectLimited, SelectCountLimited, Rollback, Release]"
  using POST_atomic[of exampleRequest "''post''" "\<lambda>c. c \<noteq> Commit" 3 freshDb]
    POST_atomic[of exampleRequest "''post''" "\<lambda>c. True" 3 freshDb]
    POST_atomic[of exampleRequest "''post''" "\<lambda>c. True" 3 likedDb]
  by (simp add: POST_def example_parse likeTransaction_def likedDb_def freshDb_def respond_def
      Let_def countOf_def upsertLikes_def insertEvent_def RATE_LIMIT_STATUS_def)

end
